theory Spec2Isabelle
  imports Main "HOL-Library.Sublist"
begin

section \<open>JavaScript values and strings\<close>

text \<open>
  The transfer engine is the class \<open>DataTransferService\<close> of
  \<open>src/salesforce/dataTransferService.ts\<close>. Its data are untyped JSON values
  (\<open>any\<close>): records, save results and error payloads. They are modelled by one
  datatype. Numbers are integers here, strings are ASCII strings, an object is its list of
  own properties in insertion order with distinct keys, and \<open>JError name message\<close> is
  an instance of \<open>Error\<close>.
\<close>

datatype jsval =
    JUndefined
  | JNull
  | JBool bool
  | JNum int
  | JStr string
  | JArr "jsval list"
  | JObj "(string \<times> jsval) list"
  | JError string string

type_synonym jsobject = "(string \<times> jsval) list"

text \<open>Truthiness, as \<open>if (v)\<close>, \<open>v && ...\<close> and \<open>filter(Boolean)\<close> test it.\<close>

fun truthy :: "jsval \<Rightarrow> bool" where
  "truthy JUndefined = False"
| "truthy JNull = False"
| "truthy (JBool b) = b"
| "truthy (JNum n) = (n \<noteq> 0)"
| "truthy (JStr s) = (s \<noteq> [])"
| "truthy (JArr xs) = True"
| "truthy (JObj ps) = True"
| "truthy (JError n m) = True"

text \<open>\<open>o[k]\<close>, \<open>o.hasOwnProperty(k)\<close>, \<open>delete o[k]\<close> and \<open>o[k] = v\<close>.\<close>

definition getProp :: "jsobject \<Rightarrow> string \<Rightarrow> jsval" where
  "getProp ob k = (case map_of ob k of None \<Rightarrow> JUndefined | Some v \<Rightarrow> v)"

definition hasOwnProperty :: "jsobject \<Rightarrow> string \<Rightarrow> bool" where
  "hasOwnProperty ob k = (map_of ob k \<noteq> None)"

definition deleteProp :: "string \<Rightarrow> jsobject \<Rightarrow> jsobject" where
  "deleteProp k ob = filter (\<lambda>p. fst p \<noteq> k) ob"

fun setProp :: "string \<Rightarrow> jsval \<Rightarrow> jsobject \<Rightarrow> jsobject" where
  "setProp k v [] = [(k, v)]"
| "setProp k v (p # ps) = (if fst p = k then (k, v) # ps else p # setProp k v ps)"

definition keys :: "jsobject \<Rightarrow> string list" where
  "keys ob = map fst ob"

subsection \<open>String operations\<close>

fun join :: "string \<Rightarrow> string list \<Rightarrow> string" where
  "join sep [] = []"
| "join sep [x] = x"
| "join sep (x # y # ys) = x @ sep @ join sep (y # ys)"

definition startsWith :: "string \<Rightarrow> string \<Rightarrow> bool" where
  "startsWith s p = (take (length p) s = p)"

definition endsWith :: "string \<Rightarrow> string \<Rightarrow> bool" where
  "endsWith s p = (length p \<le> length s \<and> drop (length s - length p) s = p)"

fun str_includes :: "string \<Rightarrow> string \<Rightarrow> bool" where
  "str_includes [] p = (p = [])"
| "str_includes (c # cs) p = (startsWith (c # cs) p \<or> str_includes cs p)"

definition charCode :: "char \<Rightarrow> nat" where
  "charCode c = of_char c"

definition isDigit :: "char \<Rightarrow> bool" where
  "isDigit c = (48 \<le> charCode c \<and> charCode c \<le> 57)"

definition isUpper :: "char \<Rightarrow> bool" where
  "isUpper c = (65 \<le> charCode c \<and> charCode c \<le> 90)"

definition isLower :: "char \<Rightarrow> bool" where
  "isLower c = (97 \<le> charCode c \<and> charCode c \<le> 122)"

text \<open>The regular-expression classes \<open>\w\<close> (also \<open>[a-zA-Z0-9_]\<close>) and \<open>\s\<close>.\<close>

definition isWordChar :: "char \<Rightarrow> bool" where
  "isWordChar c = (isDigit c \<or> isUpper c \<or> isLower c \<or> c = CHR ''_'')"

definition isSpace :: "char \<Rightarrow> bool" where
  "isSpace c = (charCode c \<in> {9, 10, 11, 12, 13, 32})"

definition toLower :: "char \<Rightarrow> char" where
  "toLower c = (if isUpper c then char_of (charCode c + 32) else c)"

definition lowerCase :: "string \<Rightarrow> string" where
  "lowerCase s = map toLower s"

text \<open>\<open>s.trim()\<close> is truthy when some character of \<open>s\<close> is not white space.\<close>

definition trimmedNonEmpty :: "string \<Rightarrow> bool" where
  "trimmedNonEmpty s = (\<exists>c \<in> set s. \<not> isSpace c)"

text \<open>\<open>s.replace(/'/g, "\\'")\<close>: a backslash before every single quote.\<close>

definition escapeQuotes :: "string \<Rightarrow> string" where
  "escapeQuotes s = concat (map (\<lambda>c. if c = CHR 0x27 then [CHR 0x5C, CHR 0x27] else [c]) s)"

subsection \<open>Conversion to strings\<close>

definition digit :: "nat \<Rightarrow> char" where
  "digit d = char_of (48 + d)"

function string_of_nat :: "nat \<Rightarrow> string" where
  "string_of_nat n =
     (if n < 10 then [digit n] else string_of_nat (n div 10) @ [digit (n mod 10)])"
  by pat_completeness auto
termination
  by (relation "measure id") auto

declare string_of_nat.simps [simp del]

definition string_of_int :: "int \<Rightarrow> string" where
  "string_of_int i = (if i < 0 then CHR ''-'' # string_of_nat (nat (- i)) else string_of_nat (nat i))"

text \<open>
  \<open>String(v)\<close> and template interpolation. An array joins its elements by commas, with
  \<open>null\<close> and \<open>undefined\<close> as the empty string; \<open>join_elems\<close> is
  \<open>Array.prototype.join\<close> on arbitrary elements.
\<close>

fun js_String :: "jsval \<Rightarrow> string"
  and elem_strings :: "jsval list \<Rightarrow> string list" where
  "js_String JUndefined = ''undefined''"
| "js_String JNull = ''null''"
| "js_String (JBool b) = (if b then ''true'' else ''false'')"
| "js_String (JNum n) = string_of_int n"
| "js_String (JStr s) = s"
| "js_String (JArr xs) = join '','' (elem_strings xs)"
| "js_String (JObj ps) = ''[object Object]''"
| "js_String (JError n m) = (if n = [] then m else if m = [] then n else n @ '': '' @ m)"
| "elem_strings [] = []"
| "elem_strings (x # xs) =
     (case x of JUndefined \<Rightarrow> [] | JNull \<Rightarrow> [] | _ \<Rightarrow> js_String x) # elem_strings xs"

definition join_elems :: "string \<Rightarrow> jsval list \<Rightarrow> string" where
  "join_elems sep xs = join sep (elem_strings xs)"

text \<open>A property key: \<open>o[v]\<close> converts \<open>v\<close> to a string.\<close>

definition propAt :: "jsobject \<Rightarrow> jsval \<Rightarrow> jsval" where
  "propAt ob v = getProp ob (js_String v)"

text \<open>\<open>JSON.stringify\<close>; \<open>None\<close> is its result \<open>undefined\<close>.\<close>

definition hexDigit :: "nat \<Rightarrow> char" where
  "hexDigit d = (if d < 10 then char_of (48 + d) else char_of (87 + d))"

definition jsonEscape :: "char \<Rightarrow> string" where
  "jsonEscape c =
     (if c = CHR 0x22 then [CHR 0x5C, CHR 0x22]
      else if c = CHR 0x5C then [CHR 0x5C, CHR 0x5C]
      else if charCode c = 8 then [CHR 0x5C, CHR ''b'']
      else if charCode c = 12 then [CHR 0x5C, CHR ''f'']
      else if charCode c = 10 then [CHR 0x5C, CHR ''n'']
      else if charCode c = 13 then [CHR 0x5C, CHR ''r'']
      else if charCode c = 9 then [CHR 0x5C, CHR ''t'']
      else if charCode c < 32
        then [CHR 0x5C, CHR ''u'', CHR ''0'', CHR ''0'', hexDigit (charCode c div 16), hexDigit (charCode c mod 16)]
      else [c])"

definition jsonQuote :: "string \<Rightarrow> string" where
  "jsonQuote s = [CHR 0x22] @ concat (map jsonEscape s) @ [CHR 0x22]"

fun json_stringify :: "jsval \<Rightarrow> string option"
  and json_elems :: "jsval list \<Rightarrow> string list"
  and json_props :: "(string \<times> jsval) list \<Rightarrow> string list" where
  "json_stringify JUndefined = None"
| "json_stringify JNull = Some ''null''"
| "json_stringify (JBool b) = Some (if b then ''true'' else ''false'')"
| "json_stringify (JNum n) = Some (string_of_int n)"
| "json_stringify (JStr s) = Some (jsonQuote s)"
| "json_stringify (JArr xs) = Some (''['' @ join '','' (json_elems xs) @ '']'')"
| "json_stringify (JObj ps) = Some (''{'' @ join '','' (json_props ps) @ ''}'')"
| "json_stringify (JError n m) = Some ''{}''"
| "json_elems [] = []"
| "json_elems (x # xs) =
     (case json_stringify x of None \<Rightarrow> ''null'' | Some t \<Rightarrow> t) # json_elems xs"
| "json_props [] = []"
| "json_props (p # ps) =
     (case json_stringify (snd p) of
        None \<Rightarrow> json_props ps
      | Some t \<Rightarrow> (jsonQuote (fst p) @ '':'' @ t) # json_props ps)"


section \<open>Error aggregation\<close>

text \<open>
  \<open>new Set(xs)\<close> spread back into an array: the distinct elements, each at its first
  occurrence.
\<close>

definition uniqueInOrder :: "string list \<Rightarrow> string list" where
  "uniqueInOrder xs = foldl (\<lambda>acc x. if x \<in> set acc then acc else acc @ [x]) [] xs"

text \<open>
  \<open>cleanMessage.match(/(\w+__c): Field name provided/g)\<close>: the matches from left to
  right. A match is a maximal run of word characters that ends in \<open>__c\<close>, has a
  character before that, and is followed by the marker text.
\<close>

definition fieldMarker :: string where
  "fieldMarker = '': Field name provided''"

function fieldMatches :: "string \<Rightarrow> string list" where
  "fieldMatches s =
     (if s = [] then []
      else if takeWhile isWordChar s = [] then fieldMatches (tl s)
      else if 4 \<le> length (takeWhile isWordChar s) \<and> endsWith (takeWhile isWordChar s) ''__c''
              \<and> startsWith (dropWhile isWordChar s) fieldMarker
        then (takeWhile isWordChar s @ fieldMarker)
               # fieldMatches (drop (length fieldMarker) (dropWhile isWordChar s))
        else fieldMatches (dropWhile isWordChar s))"
  by pat_completeness auto

lemma dropWhile_shorter:
  "takeWhile P s \<noteq> [] \<Longrightarrow> length (dropWhile P s) < length s"
  by (induction s) (auto simp: less_Suc_eq_le length_dropWhile_le split: if_splits)

termination fieldMatches
proof (relation "measure length")
  show "wf (measure length)" by simp
next
  fix s :: string
  assume "s \<noteq> []"
  then show "(tl s, s) \<in> measure length" by (cases s) auto
next
  fix s :: string
  assume "takeWhile isWordChar s \<noteq> []"
  then have "length (dropWhile isWordChar s) < length s" by (rule dropWhile_shorter)
  then show "(drop (length fieldMarker) (dropWhile isWordChar s), s) \<in> measure length"
    by simp
next
  fix s :: string
  assume "takeWhile isWordChar s \<noteq> []"
  then have "length (dropWhile isWordChar s) < length s" by (rule dropWhile_shorter)
  then show "(dropWhile isWordChar s, s) \<in> measure length" by simp
qed

declare fieldMatches.simps [simp del]

definition cleanMessage :: "string \<Rightarrow> string" where
  "cleanMessage m =
     (if str_includes m ''Field name provided'' \<and> length m > 200 \<and> length (fieldMatches m) > 1
      then ''Multiple fields have External ID/indexing issues: ''
             @ join '', '' (map (takeWhile (\<lambda>c. c \<noteq> CHR '':'')) (fieldMatches m))
             @ ''. Check field configurations.''
      else m)"

text \<open>
  \<open>stringifyErrors\<close>, by the shape of the payload: a string, an \<open>Error\<close>, an array
  (deduplicated), an object with \<open>message\<close>, \<open>statusCode\<close> or \<open>status\<close>
  and \<open>fields\<close>, anything else.
\<close>

definition objectPieces :: "jsobject \<Rightarrow> string list" where
  "objectPieces ps =
     (let message = getProp ps ''message'';
          status = (if truthy (getProp ps ''statusCode'') then getProp ps ''statusCode''
                    else getProp ps ''status'');
          fields = getProp ps ''fields''
      in (if truthy message then [cleanMessage (js_String message)] else [])
         @ (if truthy status then [''code='' @ js_String status] else [])
         @ (case fields of
              JArr fs \<Rightarrow> if fs \<noteq> [] then [''fields='' @ join_elems '','' fs] else []
            | _ \<Rightarrow> []))"

fun stringifyErrors :: "jsval \<Rightarrow> string" where
  "stringifyErrors (JStr s) = s"
| "stringifyErrors (JError n m) = m"
| "stringifyErrors (JArr es) =
     (let errors = filter (\<lambda>s. s \<noteq> []) (map stringifyErrors es);
          uniqueErrors = uniqueInOrder errors
      in if length uniqueErrors = 1 \<and> length errors > 1
         then hd uniqueErrors @ '' (occurred '' @ string_of_nat (length errors) @ '' times)''
         else join ''; '' uniqueErrors)"
| "stringifyErrors (JObj ps) =
     (if objectPieces ps \<noteq> [] then join '' '' (objectPieces ps)
      else (case json_stringify (JObj ps) of Some t \<Rightarrow> t | None \<Rightarrow> js_String (JObj ps)))"
| "stringifyErrors v = js_String v"

section \<open>Record sanitization\<close>

definition systemFields :: "string list" where
  "systemFields =
     [''Id'', ''attributes'', ''CreatedDate'', ''CreatedById'', ''LastModifiedDate'',
      ''LastModifiedById'', ''SystemModstamp'', ''LastActivityDate'', ''LastViewedDate'',
      ''LastReferencedDate'', ''Owner'', ''IsDeleted'', ''MasterRecordId'',
      ''ConnectionReceivedId'', ''ConnectionSentId'', ''PhotoUrl'']"

definition systemTimestamps :: "string list" where
  "systemTimestamps = [''LastLoginDate'', ''LastPasswordChangeDate'', ''EmailBouncedDate'']"

text \<open>\<open>key.match(/(Date|Time)$/i)\<close> and \<open>typeof v === 'string'\<close>.\<close>

definition matchesDateTime :: "string \<Rightarrow> bool" where
  "matchesDateTime key = (endsWith (lowerCase key) ''date'' \<or> endsWith (lowerCase key) ''time'')"

fun isString :: "jsval \<Rightarrow> bool" where
  "isString (JStr s) = True"
| "isString v = False"

text \<open>
  \<open>removeSystemFields\<close> mutates the record it is given; the model returns the record
  after the three loops. Each loop runs over a list of keys fixed before it starts and
  reads the record as it is at that moment. The keys of a record are names of fields and
  relationships; none of them hides the method \<open>hasOwnProperty\<close> that the first loop
  calls on the record.
\<close>

definition dropSystemField :: "jsobject \<Rightarrow> string \<Rightarrow> jsobject" where
  "dropSystemField r field = (if hasOwnProperty r field then deleteProp field r else r)"

definition dropPersonField :: "jsobject \<Rightarrow> string \<Rightarrow> jsobject" where
  "dropPersonField r key = (if endsWith key ''__pc'' then deleteProp key r else r)"

definition dropTimestamp :: "jsobject \<Rightarrow> string \<Rightarrow> jsobject" where
  "dropTimestamp r key =
     (if matchesDateTime key \<and> isString (getProp r key)
      then (if key \<in> set systemTimestamps then deleteProp key r else r)
      else r)"

definition removeSystemFields :: "jsobject \<Rightarrow> jsobject" where
  "removeSystemFields record =
     (let r1 = foldl dropSystemField record systemFields;
          r2 = foldl dropPersonField r1 (keys r1);
          r3 = foldl dropTimestamp r2 (keys r2)
      in r3)"

section \<open>Schema and the insertable-field predicate\<close>

text \<open>
  A field descriptor of a \<open>describe\<close> response, with the properties the engine reads.
  \<open>relationshipName\<close> is \<open>None\<close> for \<open>null\<close>; \<open>ftype\<close> is the property
  \<open>type\<close> and \<open>fieldList\<close> the property \<open>fields\<close>.
\<close>

record field =
  name :: string
  ftype :: string
  createable :: bool
  updateable :: bool
  calculated :: bool
  autoNumber :: bool
  externalId :: bool
  relationshipName :: "string option"
  referenceTo :: "string list"

record metadata =
  fieldList :: "field list"

definition systemFieldNames :: "string list" where
  "systemFieldNames =
     [''Owner'', ''CreatedDate'', ''CreatedById'', ''LastModifiedDate'', ''LastModifiedById'',
      ''SystemModstamp'', ''LastActivityDate'', ''LastViewedDate'', ''LastReferencedDate'',
      ''IsDeleted'', ''MasterRecordId'', ''PhotoUrl'']"

definition isInsertableField :: "field \<Rightarrow> bool" where
  "isInsertableField f =
     (if name f \<in> set systemFieldNames then False
      else if endsWith (name f) ''__pc'' then False
      else if calculated f then False
      else if ftype f = ''formula'' then False
      else True)"

section \<open>The entity type of a custom query\<close>

text \<open>
  \<open>/\bFROM\s+([a-zA-Z0-9_]+)\b/i.exec(soql)\<close>. \<open>fromMatchAt s\<close> matches the
  expression after its leading \<open>\b\<close> at the start of \<open>s\<close> and returns group 1;
  \<open>scanFrom\<close> tries the positions from left to right, knowing whether the character
  before the position is a word character.
\<close>

definition fromMatchAt :: "string \<Rightarrow> string option" where
  "fromMatchAt s =
     (if length s \<ge> 4 \<and> lowerCase (take 4 s) = ''from''
         \<and> takeWhile isSpace (drop 4 s) \<noteq> []
         \<and> takeWhile isWordChar (dropWhile isSpace (drop 4 s)) \<noteq> []
      then Some (takeWhile isWordChar (dropWhile isSpace (drop 4 s)))
      else None)"

fun scanFrom :: "bool \<Rightarrow> string \<Rightarrow> string option" where
  "scanFrom prevWord [] = None"
| "scanFrom prevWord (c # cs) =
     (case (if prevWord then None else fromMatchAt (c # cs)) of
        Some w \<Rightarrow> Some w
      | None \<Rightarrow> scanFrom (isWordChar c) cs)"

definition parseFromObject :: "string \<Rightarrow> string option" where
  "parseFromObject soql = scanFrom False soql"


section \<open>The remote systems\<close>

text \<open>
  The engine talks to the two orgs through \<open>SalesforceRestClient\<close>. A run is modelled
  with the list of the remote calls issued so far; each entry names the method that issued
  the call, the org and the request. The orgs are a parameter: a \<open>remote\<close> gives the
  outcome of every request, which may depend on all the calls before it, and is either a
  thrown value (\<open>Inl\<close>) or the parsed response. Responses have the shape the REST API
  documents; a response of another shape fails where the engine first reads it and is
  covered by \<open>Inl\<close>.
\<close>

datatype org = Source | Target

datatype site = TransferObjectRecords | TransferByQuery | HandleInsertModeParents
  | HandleUpsertModeParents | InitializeConnections

text \<open>
  \<open>create\<close> posts one record to \<open>/sobjects/T/\<close>, and any other number of records
  to \<open>/composite/sobjects/\<close> with \<open>allOrNone\<close> false.
\<close>

datatype request =
    Identity
  | Describe string
  | Query string
  | CreateOne string jsobject
  | CreateComposite bool "jsobject list"

type_synonym call = "site \<times> org \<times> request"

record saveResult =
  r_success :: jsval
  r_id :: jsval
  r_errors :: jsval

datatype createResult = ResultArray "saveResult list" | ResultObject saveResult

record remote =
  identityResponse :: "call list \<Rightarrow> org \<Rightarrow> jsval + unit"
  describeResponse :: "call list \<Rightarrow> org \<Rightarrow> string \<Rightarrow> jsval + metadata"
  queryResponse :: "call list \<Rightarrow> org \<Rightarrow> string \<Rightarrow> jsval + jsobject list option"
  createResponse :: "call list \<Rightarrow> org \<Rightarrow> request \<Rightarrow> jsval + createResult"

record TransferResult =
  success :: bool
  recordsTransferred :: nat
  errors :: "string list"

record run = TransferResult +
  calls :: "call list"

definition pushError :: "string \<Rightarrow> run \<Rightarrow> run" where
  "pushError e s = s\<lparr>errors := errors s @ [e]\<rparr>"

definition issue :: "site \<Rightarrow> org \<Rightarrow> request \<Rightarrow> run \<Rightarrow> run" where
  "issue st og rq s = s\<lparr>calls := calls s @ [(st, og, rq)]\<rparr>"

definition describe :: "remote \<Rightarrow> site \<Rightarrow> org \<Rightarrow> string \<Rightarrow> run \<Rightarrow> (jsval + metadata) \<times> run" where
  "describe env st og sobjectType s =
     (describeResponse env (calls s) og sobjectType, issue st og (Describe sobjectType) s)"

definition query :: "remote \<Rightarrow> site \<Rightarrow> org \<Rightarrow> string \<Rightarrow> run \<Rightarrow> (jsval + jsobject list option) \<times> run" where
  "query env st og soql s = (queryResponse env (calls s) og soql, issue st og (Query soql) s)"

text \<open>\<open>{ attributes: { type: sobjectType }, ...record }\<close>.\<close>

definition withAttributes :: "string \<Rightarrow> jsobject \<Rightarrow> jsobject" where
  "withAttributes sobjectType record =
     foldl (\<lambda>ob p. setProp (fst p) (snd p) ob) [(''attributes'', JObj [(''type'', JStr sobjectType)])] record"

definition createRequest :: "string \<Rightarrow> jsobject list \<Rightarrow> request" where
  "createRequest sobjectType records =
     (if length records = 1 then CreateOne sobjectType (hd records)
      else CreateComposite False (map (withAttributes sobjectType) records))"

definition create :: "remote \<Rightarrow> site \<Rightarrow> org \<Rightarrow> string \<Rightarrow> jsobject list \<Rightarrow> run \<Rightarrow> (jsval + createResult) \<times> run" where
  "create env st og sobjectType records s =
     (createResponse env (calls s) og (createRequest sobjectType records),
      issue st og (createRequest sobjectType records) s)"

text \<open>The \<open>TypeError\<close> of reading a property of \<open>undefined\<close>.\<close>

definition typeErrorReading :: "string \<Rightarrow> jsval" where
  "typeErrorReading k =
     JError ''TypeError'' (''Cannot read properties of undefined (reading '' @ [CHR 0x27] @ k @ [CHR 0x27] @ '')'')"

section \<open>Configuration\<close>

datatype mode = Insert | Upsert

text \<open>
  \<open>DataTransferOptions\<close>. \<open>batchSize\<close> is a \<open>number\<close> that nothing
  validates; the panel, the one caller of \<open>transferData\<close>, sets it to the
  \<open>parseInt\<close> of an input field. It is an integer here, of either sign, and 0 also
  stands for the other falsy values, which the code replaces by 200 like 0. The two orgs of
  the options are read by \<open>initializeConnections\<close> only.
\<close>

record DataTransferOptions =
  objectTypes :: "string list option"
  includeRelationships :: bool
  batchSize :: int
  recordLimits :: "(string \<times> int) list option"
  customQuery :: "string option"
  externalIdMapping :: "(string \<times> string) list option"
  transferMode :: "mode option"

text \<open>
  The loops over the ids of parents,
  \<open>for (let i = 0; i < ids.length; i += chunkSize) { ids.slice(i, i + chunkSize) ... }\<close>
  with the constant \<open>chunkSize\<close> 1000, visit these slices.
\<close>

function slices :: "nat \<Rightarrow> 'a list \<Rightarrow> 'a list list" where
  "slices n xs = (if n = 0 \<or> xs = [] then [] else take n xs # slices n (drop n xs))"
  by pat_completeness auto
termination
  by (relation "measure (\<lambda>(n, xs). length xs)") auto

declare slices.simps [simp del]

text \<open>
  \<open>Array.prototype.slice\<close> with integer arguments: a negative index counts from the
  end of the array, and both indices are clamped to the array.
\<close>

definition slice :: "'a list \<Rightarrow> int \<Rightarrow> int \<Rightarrow> 'a list" where
  "slice xs first final =
     (let len = int (length xs);
          k = (if first < 0 then max (len + first) 0 else min first len);
          e = (if final < 0 then max (len + final) 0 else min final len)
      in take (nat (e - k)) (drop (nat k) xs))"

text \<open>\<open>options.batchSize || 200\<close>.\<close>

definition effectiveBatchSize :: "DataTransferOptions \<Rightarrow> int" where
  "effectiveBatchSize options = (if batchSize options = 0 then 200 else batchSize options)"

section \<open>Extraction query\<close>

definition baseFields :: "metadata \<Rightarrow> string list" where
  "baseFields md = map name (filter (\<lambda>f. createable f \<or> updateable f) (fieldList md))"

text \<open>\<open>field.relationshipName\<close> is falsy when it is \<open>null\<close> or empty.\<close>

definition relName :: "field \<Rightarrow> string" where
  "relName f = (case relationshipName f of None \<Rightarrow> [] | Some n \<Rightarrow> n)"

definition relationshipFieldNames :: "metadata \<Rightarrow> string list" where
  "relationshipFieldNames md =
     map relName (filter (\<lambda>f. ftype f = ''reference'' \<and> relName f \<noteq> []) (fieldList md))"

definition relationshipFields :: "metadata \<Rightarrow> DataTransferOptions \<Rightarrow> string" where
  "relationshipFields md options =
     (if includeRelationships options \<and> join '', '' (relationshipFieldNames md) \<noteq> []
      then '', '' @ join '', '' (relationshipFieldNames md) else [])"

definition limitClause :: "string \<Rightarrow> DataTransferOptions \<Rightarrow> string" where
  "limitClause objectType options =
     (case recordLimits options of
        None \<Rightarrow> []
      | Some limits \<Rightarrow>
          (case map_of limits objectType of
             None \<Rightarrow> []
           | Some n \<Rightarrow> if n \<noteq> 0 then '' LIMIT '' @ string_of_int n else []))"

definition extractionQuery :: "string \<Rightarrow> metadata \<Rightarrow> DataTransferOptions \<Rightarrow> string" where
  "extractionQuery objectType md options =
     ''SELECT '' @ join '', '' (baseFields md) @ relationshipFields md options
       @ '' FROM '' @ objectType @ limitClause objectType options"


section \<open>Relationship resolution\<close>

definition referenceFields :: "metadata \<Rightarrow> field list" where
  "referenceFields md =
     filter (\<lambda>f. ftype f = ''reference'' \<and> referenceTo f \<noteq> []) (fieldList md)"

text \<open>
  \<open>parentIdsByObject\<close>: for each parent object, in order of first appearance, the set
  of ids in order of first appearance (the order of \<open>Object.entries\<close> for keys that
  are not array indices, as the names of entity types are).
\<close>

fun addParentId :: "string \<Rightarrow> string \<Rightarrow> (string \<times> string list) list \<Rightarrow> (string \<times> string list) list" where
  "addParentId parentObject parentId [] = [(parentObject, [parentId])]"
| "addParentId parentObject parentId (e # es) =
     (if fst e = parentObject
      then (parentObject, if parentId \<in> set (snd e) then snd e else snd e @ [parentId]) # es
      else e # addParentId parentObject parentId es)"

definition collectRef :: "jsobject \<Rightarrow> (string \<times> string list) list \<Rightarrow> field \<Rightarrow> (string \<times> string list) list" where
  "collectRef rec acc ref =
     (case (getProp rec (name ref), referenceTo ref) of
        (JStr parentId, parentObject # others) \<Rightarrow>
          if parentId \<noteq> [] \<and> parentObject \<noteq> [] then addParentId parentObject parentId acc else acc
      | _ \<Rightarrow> acc)"

definition collectParentIds :: "metadata \<Rightarrow> jsobject list \<Rightarrow> (string \<times> string list) list" where
  "collectParentIds md batch =
     foldl (\<lambda>acc rec. foldl (collectRef rec) acc (referenceFields md)) [] batch"

text \<open>\<open>chunk.map(id => `'${id}'`).join(', ')\<close>.\<close>

definition quotedIds :: "string list \<Rightarrow> string" where
  "quotedIds chunk = join '', '' (map (\<lambda>i. [CHR 0x27] @ i @ [CHR 0x27]) chunk)"

text \<open>
  Fetching parents from the source in chunks of 1000 ids: the records of all responses,
  or the first thrown value.
\<close>

fun fetchParents :: "remote \<Rightarrow> site \<Rightarrow> (string list \<Rightarrow> string) \<Rightarrow> string list list \<Rightarrow> jsobject list \<Rightarrow> run
    \<Rightarrow> (jsval + jsobject list) \<times> run" where
  "fetchParents env st soql [] parentRecords s = (Inr parentRecords, s)"
| "fetchParents env st soql (chunk # chunks) parentRecords s =
     (case query env st Source (soql chunk) s of
        (Inl e, s') \<Rightarrow> (Inl e, s')
      | (Inr resp, s') \<Rightarrow>
          fetchParents env st soql chunks
            (parentRecords @ (case resp of None \<Rightarrow> [] | Some rs \<Rightarrow> rs)) s')"

subsection \<open>Insert mode\<close>

definition insertableFields :: "metadata \<Rightarrow> string list" where
  "insertableFields parentDescribe =
     map name (filter (\<lambda>f. createable f \<and> \<not> autoNumber f \<and> name f \<noteq> ''Id'' \<and> isInsertableField f)
       (fieldList parentDescribe))"

definition dropLookup :: "metadata \<Rightarrow> jsobject \<Rightarrow> string \<Rightarrow> jsobject" where
  "dropLookup parentDescribe clean key =
     (case find (\<lambda>f. name f = key) (fieldList parentDescribe) of
        Some f \<Rightarrow> if ftype f = ''reference'' then deleteProp key clean else clean
      | None \<Rightarrow> clean)"

definition cleanParent :: "metadata \<Rightarrow> jsobject \<Rightarrow> jsobject" where
  "cleanParent parentDescribe record =
     foldl (dropLookup parentDescribe) (removeSystemFields record) (keys (removeSystemFields record))"

text \<open>
  The loop over the save results of the parents. \<open>parentRecords[i]\<close> is
  \<open>undefined\<close> beyond the end of the fetched records, and reading its \<open>Id\<close> throws.
\<close>

definition insertFailed :: "string \<Rightarrow> jsval \<Rightarrow> string" where
  "insertFailed parentObject errs =
     ''Failed to insert parent '' @ parentObject @ '': '' @ stringifyErrors errs"

fun mapInserted :: "string \<Rightarrow> saveResult list \<Rightarrow> jsobject list \<Rightarrow> jsobject \<times> run
    \<Rightarrow> jsval option \<times> jsobject \<times> run" where
  "mapInserted parentObject [] originals (idMapping, s) = (None, idMapping, s)"
| "mapInserted parentObject (insertedRecord # rest) originals (idMapping, s) =
     (if truthy (r_success insertedRecord) \<and> truthy (r_id insertedRecord)
      then (case originals of
              [] \<Rightarrow> (Some (typeErrorReading ''Id''), idMapping, s)
            | originalRecord # _ \<Rightarrow>
                mapInserted parentObject rest (tl originals)
                  (setProp (js_String (getProp originalRecord ''Id'')) (r_id insertedRecord) idMapping, s))
      else mapInserted parentObject rest (tl originals)
             (idMapping, pushError (insertFailed parentObject (r_errors insertedRecord)) s))"

definition insertFetchQuery :: "metadata \<Rightarrow> string \<Rightarrow> string list \<Rightarrow> string" where
  "insertFetchQuery parentDescribe parentObject chunk =
     ''SELECT Id, '' @ join '', '' (insertableFields parentDescribe)
       @ '' FROM '' @ parentObject @ '' WHERE Id IN ('' @ quotedIds chunk @ '')''"

definition insertCaught :: "string \<Rightarrow> jsval \<Rightarrow> run \<Rightarrow> run" where
  "insertCaught parentObject e s =
     pushError (''Error handling insert mode parents for '' @ parentObject @ '': '' @ stringifyErrors e) s"

definition handleInsertModeParents :: "remote \<Rightarrow> string \<Rightarrow> string list \<Rightarrow> jsobject \<times> run \<Rightarrow> jsobject \<times> run" where
  "handleInsertModeParents env parentObject parentIds ms =
     (case describe env HandleInsertModeParents Source parentObject (snd ms) of
        (Inl e, s1) \<Rightarrow> (fst ms, insertCaught parentObject e s1)
      | (Inr parentDescribe, s1) \<Rightarrow>
          if insertableFields parentDescribe = [] then (fst ms, s1)
          else
            (case fetchParents env HandleInsertModeParents (insertFetchQuery parentDescribe parentObject)
                    (slices 1000 parentIds) [] s1 of
               (Inl e, s2) \<Rightarrow> (fst ms, insertCaught parentObject e s2)
             | (Inr parentRecords, s2) \<Rightarrow>
                 if parentRecords = [] then (fst ms, s2)
                 else
                   (case create env HandleInsertModeParents Target parentObject
                           (map (cleanParent parentDescribe) parentRecords) s2 of
                      (Inl e, s3) \<Rightarrow> (fst ms, insertCaught parentObject e s3)
                    | (Inr (ResultObject r), s3) \<Rightarrow> (fst ms, s3)
                    | (Inr (ResultArray insertResult), s3) \<Rightarrow>
                        (case mapInserted parentObject insertResult parentRecords (fst ms, s3) of
                           (None, idMapping, s4) \<Rightarrow> (idMapping, s4)
                         | (Some e, idMapping, s4) \<Rightarrow> (idMapping, insertCaught parentObject e s4)))))"

subsection \<open>Upsert mode\<close>

definition missingExternalId :: "string \<Rightarrow> string" where
  "missingExternalId parentObject =
     ''No external ID field specified for '' @ parentObject
       @ ''. Please configure external ID mapping for upsert mode.''"

definition upsertFetchQuery :: "string \<Rightarrow> string \<Rightarrow> string list \<Rightarrow> string" where
  "upsertFetchQuery externalIdField parentObject chunk =
     ''SELECT Id, '' @ externalIdField @ '' FROM '' @ parentObject
       @ '' WHERE Id IN ('' @ quotedIds chunk @ '')''"

definition targetQuery :: "string \<Rightarrow> string \<Rightarrow> jsval \<Rightarrow> string" where
  "targetQuery parentObject externalIdField externalIdValue =
     ''SELECT Id FROM '' @ parentObject @ '' WHERE '' @ externalIdField @ '' = ''
       @ [CHR 0x27] @ escapeQuotes (js_String externalIdValue) @ [CHR 0x27]"

definition lookupFailed :: "string \<Rightarrow> string \<Rightarrow> jsval \<Rightarrow> string" where
  "lookupFailed parentObject externalIdField e =
     ''Error looking up parent '' @ parentObject @ '' by '' @ externalIdField
       @ '': '' @ stringifyErrors e"

definition parentNotFound :: "string \<Rightarrow> string \<Rightarrow> jsval \<Rightarrow> string" where
  "parentNotFound parentObject externalIdField externalIdValue =
     ''Parent record '' @ parentObject @ '' with '' @ externalIdField @ '' = ''
       @ [CHR 0x27] @ js_String externalIdValue @ [CHR 0x27]
       @ '' not found in target org. Consider running parent transfer first.''"

definition upsertCaught :: "string \<Rightarrow> jsval \<Rightarrow> string" where
  "upsertCaught parentObject e =
     ''Error handling upsert mode parents for '' @ parentObject @ '': '' @ stringifyErrors e"

fun lookupParents :: "remote \<Rightarrow> string \<Rightarrow> string \<Rightarrow> jsobject list \<Rightarrow> jsobject \<times> run \<Rightarrow> jsobject \<times> run" where
  "lookupParents env parentObject externalIdField [] ms = ms"
| "lookupParents env parentObject externalIdField (parentRecord # rest) ms =
     (if \<not> truthy (getProp parentRecord externalIdField)
      then lookupParents env parentObject externalIdField rest ms
      else
        (case query env HandleUpsertModeParents Target
                (targetQuery parentObject externalIdField (getProp parentRecord externalIdField))
                (snd ms) of
           (Inl e, s') \<Rightarrow>
             lookupParents env parentObject externalIdField rest
               (fst ms, pushError (lookupFailed parentObject externalIdField e) s')
         | (Inr (Some (found # others)), s') \<Rightarrow>
             lookupParents env parentObject externalIdField rest
               (setProp (js_String (getProp parentRecord ''Id'')) (getProp found ''Id'') (fst ms), s')
         | (Inr notFound, s') \<Rightarrow>
             lookupParents env parentObject externalIdField rest
               (fst ms,
                pushError (parentNotFound parentObject externalIdField
                             (getProp parentRecord externalIdField)) s')))"

definition handleUpsertModeParents :: "remote \<Rightarrow> string \<Rightarrow> string list \<Rightarrow> DataTransferOptions
    \<Rightarrow> jsobject \<times> run \<Rightarrow> jsobject \<times> run" where
  "handleUpsertModeParents env parentObject parentIds options ms =
     (case externalIdMapping options of
        None \<Rightarrow> ms
      | Some mapping \<Rightarrow>
          (case map_of mapping parentObject of
             None \<Rightarrow> (fst ms, pushError (missingExternalId parentObject) (snd ms))
           | Some externalIdField \<Rightarrow>
               if externalIdField = [] then (fst ms, pushError (missingExternalId parentObject) (snd ms))
               else
                 (case fetchParents env HandleUpsertModeParents
                         (upsertFetchQuery externalIdField parentObject)
                         (slices 1000 parentIds) [] (snd ms) of
                    (Inl e, s1) \<Rightarrow> (fst ms, pushError (upsertCaught parentObject e) s1)
                  | (Inr parentRecords, s1) \<Rightarrow>
                      lookupParents env parentObject externalIdField parentRecords (fst ms, s1))))"

subsection \<open>Dispatch by transfer mode\<close>

definition handleParents :: "remote \<Rightarrow> DataTransferOptions \<Rightarrow> jsobject \<times> run \<Rightarrow> string \<times> string list \<Rightarrow> jsobject \<times> run" where
  "handleParents env options ms entry =
     (if snd entry = [] then ms
      else if transferMode options = Some Insert
        then handleInsertModeParents env (fst entry) (snd entry) ms
      else if transferMode options = Some Upsert
        then handleUpsertModeParents env (fst entry) (snd entry) options ms
      else ms)"

definition ensureParentRecordsExistNew :: "remote \<Rightarrow> string \<Rightarrow> metadata \<Rightarrow> jsobject list \<Rightarrow> DataTransferOptions
    \<Rightarrow> run \<Rightarrow> jsobject \<times> run" where
  "ensureParentRecordsExistNew env objectType md batch options s =
     (if referenceFields md = [] then ([], s)
      else foldl (handleParents env options) ([], s) (collectParentIds md batch))"


section \<open>Writing batches\<close>

text \<open>
  The remapping of lookup fields: \<open>cleaned[ref.name] = idMap[srcId]\<close> when both
  \<open>srcId\<close> and \<open>idMap[srcId]\<close> are truthy. The identifier map is a plain object
  created empty; its inherited properties are not modelled.
\<close>

definition remapField :: "jsobject \<Rightarrow> jsobject \<Rightarrow> jsobject \<Rightarrow> field \<Rightarrow> jsobject" where
  "remapField idMap original cleaned ref =
     (if truthy (getProp original (name ref)) \<and> truthy (propAt idMap (getProp original (name ref)))
      then setProp (name ref) (propAt idMap (getProp original (name ref))) cleaned
      else cleaned)"

definition remapRecord :: "metadata \<Rightarrow> jsobject \<Rightarrow> jsobject \<Rightarrow> jsobject \<Rightarrow> jsobject" where
  "remapRecord md idMap original cleaned =
     foldl (remapField idMap original) cleaned (referenceFields md)"

definition cleanedBatch :: "jsobject list \<Rightarrow> jsobject list" where
  "cleanedBatch batch = map removeSystemFields batch"

definition remapBatch :: "metadata \<Rightarrow> jsobject \<Rightarrow> jsobject list \<Rightarrow> jsobject list" where
  "remapBatch md idMap batch =
     map (\<lambda>p. remapRecord md idMap (fst p) (snd p)) (zip batch (cleanedBatch batch))"

definition failureMessage :: "string \<Rightarrow> jsval \<Rightarrow> string" where
  "failureMessage objectType errs =
     objectType @ '': '' @ (if stringifyErrors errs \<noteq> [] then stringifyErrors errs else ''Unknown error'')"

definition recordResults :: "string \<Rightarrow> createResult \<Rightarrow> run \<Rightarrow> run" where
  "recordResults objectType insertResult s =
     (case insertResult of
        ResultArray rs \<Rightarrow>
          s\<lparr>recordsTransferred := recordsTransferred s + length (filter (\<lambda>r. truthy (r_success r)) rs),
            errors := errors s @ map (\<lambda>failure. failureMessage objectType (r_errors failure))
                                   (filter (\<lambda>r. \<not> truthy (r_success r)) rs)\<rparr>
      | ResultObject r \<Rightarrow>
          if truthy (r_success r) then s\<lparr>recordsTransferred := recordsTransferred s + 1\<rparr>
          else pushError (failureMessage objectType (r_errors r)) s)"

text \<open>
  The body of the batch loop, which \<open>transferObjectRecords\<close> and
  \<open>transferByQuery\<close> both contain: clean the batch, resolve and remap the parents when
  relationships are included, create the batch in the target, count the results.
\<close>

definition payloadOf :: "remote \<Rightarrow> string \<Rightarrow> metadata \<Rightarrow> DataTransferOptions \<Rightarrow> jsobject list \<Rightarrow> run
    \<Rightarrow> jsobject list \<times> run" where
  "payloadOf env objectType md options batch s =
     (if includeRelationships options
      then (case ensureParentRecordsExistNew env objectType md batch options s of
              (idMap, s1) \<Rightarrow> (remapBatch md idMap batch, s1))
      else (cleanedBatch batch, s))"

definition writeBatch :: "remote \<Rightarrow> site \<Rightarrow> string \<Rightarrow> metadata \<Rightarrow> DataTransferOptions \<Rightarrow> jsobject list
    \<Rightarrow> run \<Rightarrow> (jsval + unit) \<times> run" where
  "writeBatch env st objectType md options batch s =
     (case payloadOf env objectType md options batch s of
        (payload, s1) \<Rightarrow>
          (case create env st Target objectType payload s1 of
             (Inl e, s2) \<Rightarrow> (Inl e, s2)
           | (Inr insertResult, s2) \<Rightarrow> (Inr (), recordResults objectType insertResult s2)))"

text \<open>
  The loop itself,
  \<open>for (let i = 0; i < records.length; i += batchSize) { records.slice(i, i + batchSize) ... }\<close>,
  from the index \<open>i\<close> on. A thrown value leaves the loop. With a negative step the
  index never reaches the length, so the loop may run forever: the result \<open>None\<close>
  stands for a loop, and then for a method, that does not return.
\<close>

partial_function (option) batchLoop :: "remote \<Rightarrow> site \<Rightarrow> string \<Rightarrow> metadata \<Rightarrow> DataTransferOptions
    \<Rightarrow> jsobject list \<Rightarrow> int \<Rightarrow> run \<Rightarrow> ((jsval + unit) \<times> run) option" where
  "batchLoop env st objectType md options records i s =
     (if i < int (length records)
      then (case writeBatch env st objectType md options
                   (slice records i (i + effectiveBatchSize options)) s of
              (Inl e, s') \<Rightarrow> Some (Inl e, s')
            | (Inr u, s') \<Rightarrow>
                batchLoop env st objectType md options records (i + effectiveBatchSize options) s')
      else Some (Inr (), s))"

declare batchLoop.simps [code]

section \<open>Transfer of one entity type, and of a custom query\<close>

definition transferObjectRecords_try :: "remote \<Rightarrow> string \<Rightarrow> DataTransferOptions \<Rightarrow> run
    \<Rightarrow> ((jsval + unit) \<times> run) option" where
  "transferObjectRecords_try env objectType options s =
     (case describe env TransferObjectRecords Source objectType s of
        (Inl e, s1) \<Rightarrow> Some (Inl e, s1)
      | (Inr md, s1) \<Rightarrow>
          (case query env TransferObjectRecords Source (extractionQuery objectType md options) s1 of
             (Inl e, s2) \<Rightarrow> Some (Inl e, s2)
           | (Inr None, s2) \<Rightarrow> Some (Inl (typeErrorReading ''length''), s2)
           | (Inr (Some records), s2) \<Rightarrow>
               if records = [] then Some (Inr (), s2)
               else batchLoop env TransferObjectRecords objectType md options records 0 s2))"

definition transferCaught :: "string \<Rightarrow> jsval \<Rightarrow> string" where
  "transferCaught objectType e = ''Error transferring '' @ objectType @ '': '' @ stringifyErrors e"

definition transferObjectRecords :: "remote \<Rightarrow> string \<Rightarrow> DataTransferOptions \<Rightarrow> run \<Rightarrow> run option" where
  "transferObjectRecords env objectType options s =
     (case transferObjectRecords_try env objectType options s of
        None \<Rightarrow> None
      | Some (Inl e, s') \<Rightarrow> Some (pushError (transferCaught objectType e) s')
      | Some (Inr u, s') \<Rightarrow> Some s')"

definition transferByQuery_try :: "remote \<Rightarrow> string \<Rightarrow> string \<Rightarrow> DataTransferOptions \<Rightarrow> run
    \<Rightarrow> ((jsval + unit) \<times> run) option" where
  "transferByQuery_try env soql objectType options s =
     (case query env TransferByQuery Source soql s of
        (Inl e, s1) \<Rightarrow> Some (Inl e, s1)
      | (Inr queryResult, s1) \<Rightarrow>
          if (case queryResult of None \<Rightarrow> [] | Some records \<Rightarrow> records) = [] then Some (Inr (), s1)
          else
            (case describe env TransferByQuery Source objectType s1 of
               (Inl e, s2) \<Rightarrow> Some (Inl e, s2)
             | (Inr md, s2) \<Rightarrow>
                 batchLoop env TransferByQuery objectType md options
                   (case queryResult of None \<Rightarrow> [] | Some records \<Rightarrow> records) 0 s2))"

definition queryCaught :: "string \<Rightarrow> jsval \<Rightarrow> string" where
  "queryCaught objectType e =
     ''Error transferring by query for '' @ objectType @ '': '' @ stringifyErrors e"

definition noObjectType :: jsval where
  "noObjectType = JError ''Error'' ''Unable to determine object type from SOQL query''"

definition noObjectTypes :: jsval where
  "noObjectTypes = JError ''Error'' ''No object types provided for transfer''"

definition notInitialized :: jsval where
  "notInitialized = JError ''Error'' ''Connections not initialized''"

definition transferFailed :: "jsval \<Rightarrow> string" where
  "transferFailed error = ''Transfer failed: '' @ js_String error"

text \<open>
  \<open>transferByQuery\<close> throws when the query names no object type, before its own
  \<open>try\<close>; inside, a thrown value becomes an error of the result.
\<close>

definition transferByQuery :: "remote \<Rightarrow> string \<Rightarrow> DataTransferOptions \<Rightarrow> run
    \<Rightarrow> ((jsval + unit) \<times> run) option" where
  "transferByQuery env soql options s =
     (case parseFromObject soql of
        None \<Rightarrow> Some (Inl noObjectType, s)
      | Some objectType \<Rightarrow>
          (case transferByQuery_try env soql objectType options s of
             None \<Rightarrow> None
           | Some (Inl e, s') \<Rightarrow> Some (Inr (), pushError (queryCaught objectType e) s')
           | Some (Inr u, s') \<Rightarrow> Some (Inr (), s')))"

section \<open>The run\<close>

text \<open>
  The service holds the two connections, \<open>null\<close> until \<open>initializeConnections\<close>
  sets them. The private methods above test them again; \<open>transferData\<close> calls them
  only after its own test, so there the test never fails.
\<close>

record SalesforceOrg =
  orgInstanceUrl :: string
  orgAccessToken :: "string option"

record SalesforceRestClient =
  instanceUrl :: string
  accessToken :: string

record DataTransferService =
  sourceConn :: "SalesforceRestClient option"
  targetConn :: "SalesforceRestClient option"

definition newClient :: "SalesforceOrg \<Rightarrow> SalesforceRestClient" where
  "newClient og =
     \<lparr>instanceUrl = (if endsWith (orgInstanceUrl og) ''/'' then butlast (orgInstanceUrl og)
                      else orgInstanceUrl og),
      accessToken = (case orgAccessToken og of None \<Rightarrow> [] | Some t \<Rightarrow> t)\<rparr>"

definition hasToken :: "SalesforceOrg \<Rightarrow> bool" where
  "hasToken og = (case orgAccessToken og of None \<Rightarrow> False | Some t \<Rightarrow> t \<noteq> [])"

definition connectFailure :: "jsval \<Rightarrow> jsval" where
  "connectFailure e = JError ''Error'' (''Failed to initialize Salesforce connections: '' @ js_String e)"

text \<open>
  \<open>initializeConnections\<close>: the thrown value if any, the service and the calls made.
  Both connections are stored before they are tested.
\<close>

definition initializeConnections :: "remote \<Rightarrow> SalesforceOrg \<Rightarrow> SalesforceOrg \<Rightarrow> DataTransferService \<Rightarrow> call list
    \<Rightarrow> jsval option \<times> DataTransferService \<times> call list" where
  "initializeConnections env sourceOrg targetOrg service history =
     (if \<not> hasToken sourceOrg \<or> \<not> hasToken targetOrg
      then (Some (connectFailure (JError ''Error'' ''Access tokens are required for both source and target orgs'')),
            service, history)
      else
        (case identityResponse env history Source of
           Inl e \<Rightarrow>
             (Some (connectFailure e),
              \<lparr>sourceConn = Some (newClient sourceOrg), targetConn = Some (newClient targetOrg)\<rparr>,
              history @ [(InitializeConnections, Source, Identity)])
         | Inr u \<Rightarrow>
             (case identityResponse env (history @ [(InitializeConnections, Source, Identity)]) Target of
                Inl e \<Rightarrow>
                  (Some (connectFailure e),
                   \<lparr>sourceConn = Some (newClient sourceOrg), targetConn = Some (newClient targetOrg)\<rparr>,
                   history @ [(InitializeConnections, Source, Identity), (InitializeConnections, Target, Identity)])
              | Inr u' \<Rightarrow>
                  (None,
                   \<lparr>sourceConn = Some (newClient sourceOrg), targetConn = Some (newClient targetOrg)\<rparr>,
                   history @ [(InitializeConnections, Source, Identity), (InitializeConnections, Target, Identity)]))))"

text \<open>
  \<open>options.customQuery && options.customQuery.trim()\<close>, the default of the transfer
  mode, and the result object a run starts with.
\<close>

definition customQueryGiven :: "DataTransferOptions \<Rightarrow> bool" where
  "customQueryGiven options = (case customQuery options of None \<Rightarrow> False | Some q \<Rightarrow> trimmedNonEmpty q)"

definition withDefaultMode :: "DataTransferOptions \<Rightarrow> DataTransferOptions" where
  "withDefaultMode options =
     (if transferMode options = None then options\<lparr>transferMode := Some Insert\<rparr> else options)"

definition initialRun :: "call list \<Rightarrow> run" where
  "initialRun history = \<lparr>success = False, recordsTransferred = 0, errors = [], calls = history\<rparr>"

text \<open>The loop of \<open>transferData\<close> over the requested entity types.\<close>

fun transferAll :: "remote \<Rightarrow> DataTransferOptions \<Rightarrow> run \<Rightarrow> string list \<Rightarrow> run option" where
  "transferAll env options result [] = Some result"
| "transferAll env options result (objectType # types) =
     (case transferObjectRecords env objectType options result of
        None \<Rightarrow> None
      | Some result' \<Rightarrow> transferAll env options result' types)"

definition transferData_try :: "remote \<Rightarrow> DataTransferOptions \<Rightarrow> run \<Rightarrow> ((jsval + unit) \<times> run) option" where
  "transferData_try env options result =
     (if customQueryGiven options
      then transferByQuery env (case customQuery options of None \<Rightarrow> [] | Some q \<Rightarrow> q) options result
      else
        (case objectTypes options of
           None \<Rightarrow> Some (Inl noObjectTypes, result)
         | Some types \<Rightarrow>
             (case transferAll env options result types of
                None \<Rightarrow> None
              | Some result' \<Rightarrow> Some (Inr (), result'))))"

text \<open>
  \<open>transferData\<close> throws (\<open>Inl\<close>) when a connection is missing. Otherwise, when it
  returns, it returns the result, here together with the calls issued; \<open>history\<close> is
  the list of the calls made before the run.
\<close>

definition transferData :: "remote \<Rightarrow> DataTransferService \<Rightarrow> DataTransferOptions \<Rightarrow> call list
    \<Rightarrow> (jsval + run) option" where
  "transferData env service options history =
     (if sourceConn service = None \<or> targetConn service = None
      then Some (Inl notInitialized)
      else
        (case transferData_try env (withDefaultMode options) (initialRun history) of
           None \<Rightarrow> None
         | Some (Inl error, result) \<Rightarrow> Some (Inr (pushError (transferFailed error) result))
         | Some (Inr u, result) \<Rightarrow> Some (Inr (result\<lparr>success := (errors result = [])\<rparr>))))"

section \<open>Observing a run\<close>

text \<open>
  The notions the properties below are stated with. \<open>resolves P s s'\<close>: from
  \<open>s\<close> to \<open>s'\<close> the flag and the count of the result are unchanged, errors are
  only appended, and the calls issued in between all satisfy \<open>P\<close>.
\<close>

definition resolves :: "(call \<Rightarrow> bool) \<Rightarrow> run \<Rightarrow> run \<Rightarrow> bool" where
  "resolves P s s' \<longleftrightarrow>
     success s' = success s \<and> recordsTransferred s' = recordsTransferred s
     \<and> prefix (errors s) (errors s')
     \<and> (\<exists>cs. calls s' = calls s @ cs \<and> (\<forall>c \<in> set cs. P c))"

text \<open>Calls by the method that issued them.\<close>

definition upsertCall :: "call \<Rightarrow> bool" where
  "upsertCall c \<longleftrightarrow> (\<exists>og q. c = (HandleUpsertModeParents, og, Query q))"

definition insertCall :: "call \<Rightarrow> bool" where
  "insertCall c \<longleftrightarrow> fst c = HandleInsertModeParents"

definition parentCall :: "call \<Rightarrow> bool" where
  "parentCall c \<longleftrightarrow> fst c = HandleInsertModeParents \<or> fst c = HandleUpsertModeParents"

text \<open>
  A write is a create request to the target; a batch write is one issued by the batch loop
  of the given method.
\<close>

fun isCreate :: "request \<Rightarrow> bool" where
  "isCreate (CreateOne t r) = True"
| "isCreate (CreateComposite a rs) = True"
| "isCreate rq = False"

definition targetCreate :: "call \<Rightarrow> bool" where
  "targetCreate c \<longleftrightarrow> fst (snd c) = Target \<and> isCreate (snd (snd c))"

definition batchWrite :: "site \<Rightarrow> call \<Rightarrow> bool" where
  "batchWrite st c \<longleftrightarrow> fst c = st \<and> targetCreate c"

text \<open>
  The number of records a response reports as created, and the total over the batch writes
  of a list of calls issued after the history \<open>h\<close>, each with the response the
  remote gave it.
\<close>

fun successesOf :: "createResult \<Rightarrow> nat" where
  "successesOf (ResultArray rs) = length (filter (\<lambda>r. truthy (r_success r)) rs)"
| "successesOf (ResultObject r) = (if truthy (r_success r) then 1 else 0)"

definition reportedBy :: "remote \<Rightarrow> site \<Rightarrow> call list \<Rightarrow> call \<Rightarrow> nat" where
  "reportedBy env st h c =
     (if batchWrite st c
      then (case createResponse env h Target (snd (snd c)) of Inl e \<Rightarrow> 0 | Inr res \<Rightarrow> successesOf res)
      else 0)"

fun reported :: "remote \<Rightarrow> site \<Rightarrow> call list \<Rightarrow> call list \<Rightarrow> nat" where
  "reported env st h [] = 0"
| "reported env st h (c # cs) = reportedBy env st h c + reported env st (h @ [c]) cs"

text \<open>
  The iterations of the batch loop over a given list of batches, up to the first thrown
  value.
\<close>

fun writeBatches :: "remote \<Rightarrow> site \<Rightarrow> string \<Rightarrow> metadata \<Rightarrow> DataTransferOptions \<Rightarrow> jsobject list list
    \<Rightarrow> run \<Rightarrow> (jsval + unit) \<times> run" where
  "writeBatches env st objectType md options [] s = (Inr (), s)"
| "writeBatches env st objectType md options (batch # batches) s =
     (case writeBatch env st objectType md options batch s of
        (Inl e, s') \<Rightarrow> (Inl e, s')
      | (Inr u, s') \<Rightarrow> writeBatches env st objectType md options batches s')"

text \<open>The calls issued between two states of a run.\<close>

definition newCalls :: "run \<Rightarrow> run \<Rightarrow> call list" where
  "newCalls s s' = drop (length (calls s)) (calls s')"

text \<open>The two calls that open the pipeline of an entity type, and the state after them.\<close>

definition describeCall :: "string \<Rightarrow> call" where
  "describeCall objectType = (TransferObjectRecords, Source, Describe objectType)"

definition extractionCall :: "string \<Rightarrow> metadata \<Rightarrow> DataTransferOptions \<Rightarrow> call" where
  "extractionCall objectType md options =
     (TransferObjectRecords, Source, Query (extractionQuery objectType md options))"

definition extracted :: "string \<Rightarrow> metadata \<Rightarrow> DataTransferOptions \<Rightarrow> run \<Rightarrow> run" where
  "extracted objectType md options s =
     issue TransferObjectRecords Source (Query (extractionQuery objectType md options))
       (issue TransferObjectRecords Source (Describe objectType) s)"





section \<open>Example systems\<close>

text \<open>
  Concrete schemas, records, orgs and options, used to instantiate the properties. A
  \<open>fixedRemote\<close> describes every entity type by the same schema, answers a query by
  the org it is sent to and the entity type it selects from, and answers create requests
  by the given function.
\<close>

definition textField :: "string \<Rightarrow> bool \<Rightarrow> field" where
  "textField n writable =
     \<lparr>name = n, ftype = ''string'', createable = writable, updateable = writable, calculated = False,
      autoNumber = False, externalId = False, relationshipName = None, referenceTo = []\<rparr>"

definition lookupField :: "string \<Rightarrow> string \<Rightarrow> string \<Rightarrow> field" where
  "lookupField n rel parent =
     \<lparr>name = n, ftype = ''reference'', createable = True, updateable = True, calculated = False,
      autoNumber = False, externalId = False, relationshipName = Some rel, referenceTo = [parent]\<rparr>"

definition fixedRemote :: "metadata \<Rightarrow> (org \<Rightarrow> string option \<Rightarrow> jsobject list) \<Rightarrow> (request \<Rightarrow> jsval + createResult)
    \<Rightarrow> remote" where
  "fixedRemote md records creates =
     \<lparr>identityResponse = (\<lambda>h og. Inr ()),
      describeResponse = (\<lambda>h og t. Inr md),
      queryResponse = (\<lambda>h og q. Inr (Some (records og (parseFromObject q)))),
      createResponse = (\<lambda>h og rq. creates rq)\<rparr>"

definition saved :: saveResult where
  "saved = \<lparr>r_success = JBool True, r_id = JStr ''a0B000000000001'', r_errors = JArr []\<rparr>"

definition acceptAll :: "request \<Rightarrow> jsval + createResult" where
  "acceptAll rq =
     (case rq of
        CreateOne t r \<Rightarrow> Inr (ResultObject saved)
      | CreateComposite a rs \<Rightarrow> Inr (ResultArray (map (\<lambda>r. saved) rs))
      | _ \<Rightarrow> Inl (JError ''Error'' ''Salesforce API error: 405 Method Not Allowed''))"

definition rejectAll :: "request \<Rightarrow> jsval + createResult" where
  "rejectAll rq = Inl (JError ''Error'' ''Salesforce API error: 400 Bad Request - REQUIRED_FIELD_MISSING'')"

definition contactSchema :: metadata where
  "contactSchema =
     \<lparr>fieldList = [textField ''Id'' False, textField ''LastName'' True,
                   lookupField ''AccountId'' ''Account'' ''Account'']\<rparr>"


definition contact :: "string \<Rightarrow> string \<Rightarrow> jsobject" where
  "contact lastName accountId =
     [(''attributes'', JObj [(''type'', JStr ''Contact'')]), (''LastName'', JStr lastName),
      (''AccountId'', JStr accountId)]"

definition fiveContacts :: "jsobject list" where
  "fiveContacts = map (\<lambda>n. contact n ''001A'') [''Ito'', ''Roy'', ''Kim'', ''Doe'', ''Poe'']"

definition twoContacts :: "jsobject list" where
  "twoContacts = [contact ''Ito'' ''001A'', contact ''Roy'' ''001B'']"

definition allSucceed :: remote where
  "allSucceed = fixedRemote contactSchema (\<lambda>og t. fiveContacts) acceptAll"

definition rejectingTarget :: remote where
  "rejectingTarget = fixedRemote contactSchema (\<lambda>og t. twoContacts) rejectAll"

text \<open>
  Org pairs for upsert mode: the source holds two contacts and their two accounts; the
  target finds no account, or finds the same account for every external id.
\<close>

definition sourceAccounts :: "jsobject list" where
  "sourceAccounts =
     [[(''Id'', JStr ''001A''), (''Name'', JStr ''Acme'')],
      [(''Id'', JStr ''001B''), (''Name'', JStr ''Bolt'')]]"

definition sourceRecords :: "string option \<Rightarrow> jsobject list" where
  "sourceRecords t = (if t = Some ''Account'' then sourceAccounts else twoContacts)"

definition unmatchedParents :: remote where
  "unmatchedParents =
     fixedRemote contactSchema (\<lambda>og t. case og of Source \<Rightarrow> sourceRecords t | Target \<Rightarrow> []) acceptAll"


definition contactsByTwo :: DataTransferOptions where
  "contactsByTwo =
     \<lparr>objectTypes = Some [''Contact''], includeRelationships = False, batchSize = 2,
      recordLimits = None, customQuery = None, externalIdMapping = None, transferMode = Some Insert\<rparr>"

text \<open>The same options with the batch size \<open>-1\<close>.\<close>

definition contactsBackwards :: DataTransferOptions where
  "contactsBackwards = contactsByTwo\<lparr>batchSize := - 1\<rparr>"

definition connected :: DataTransferService where
  "connected =
     \<lparr>sourceConn = Some \<lparr>instanceUrl = ''https://source.example'', accessToken = ''s''\<rparr>,
      targetConn = Some \<lparr>instanceUrl = ''https://target.example'', accessToken = ''t''\<rparr>\<rparr>"



definition upsertContacts :: DataTransferOptions where
  "upsertContacts =
     contactsByTwo\<lparr>includeRelationships := True, transferMode := Some Upsert,
                   externalIdMapping := Some [(''Account'', ''Name'')]\<rparr>"

text \<open>A source that does not know the entity type \<open>Missing__c\<close>.\<close>

definition notFound :: jsval where
  "notFound = JError ''Error'' ''Salesforce API error: 404 Not Found - The requested resource does not exist''"

definition missingType :: remote where
  "missingType =
     allSucceed\<lparr>describeResponse := (\<lambda>h og t. if t = ''Missing__c'' then Inl notFound else Inr contactSchema)\<rparr>"

definition missingThenContacts :: DataTransferOptions where
  "missingThenContacts = contactsByTwo\<lparr>objectTypes := Some [''Missing__c'', ''Contact'']\<rparr>"



section \<open>Properties of sanitization\<close>

lemma keys_deleteProp: "set (keys (deleteProp k r)) = set (keys r) - {k}"
  by (auto simp: keys_def deleteProp_def)

lemma hasOwnProperty_keys: "hasOwnProperty r k \<longleftrightarrow> k \<in> set (keys r)"
  by (simp add: hasOwnProperty_def keys_def map_of_eq_None_iff)

lemma keys_dropSystemField: "set (keys (dropSystemField r f)) = set (keys r) - {f}"
  by (auto simp: dropSystemField_def keys_deleteProp hasOwnProperty_keys)

lemma keys_foldl_dropSystemField:
  "set (keys (foldl dropSystemField r fs)) = set (keys r) - set fs"
  by (induction fs arbitrary: r) (auto simp: keys_dropSystemField)

lemma keys_dropPersonField:
  "set (keys (dropPersonField r k)) = set (keys r) - (if endsWith k ''__pc'' then {k} else {})"
  by (simp add: dropPersonField_def keys_deleteProp)

lemma keys_foldl_dropPersonField:
  "set (keys (foldl dropPersonField r ks)) = set (keys r) - {k \<in> set ks. endsWith k ''__pc''}"
  by (induction ks arbitrary: r) (auto simp: keys_dropPersonField)

lemma keys_dropTimestamp: "set (keys (dropTimestamp r k)) \<subseteq> set (keys r)"
  by (auto simp: dropTimestamp_def keys_deleteProp)

lemma keys_foldl_dropTimestamp: "set (keys (foldl dropTimestamp r ks)) \<subseteq> set (keys r)"
proof (induction ks arbitrary: r)
  case Nil
  show ?case by simp
next
  case (Cons k ks)
  have "set (keys (foldl dropTimestamp (dropTimestamp r k) ks)) \<subseteq> set (keys (dropTimestamp r k))"
    by (rule Cons.IH)
  also have "\<dots> \<subseteq> set (keys r)" by (rule keys_dropTimestamp)
  finally show ?case by simp
qed

lemma keys_removeSystemFields:
  "set (keys (removeSystemFields r)) \<subseteq> {k \<in> set (keys r). k \<notin> set systemFields \<and> \<not> endsWith k ''__pc''}"
proof -
  let ?r1 = "foldl dropSystemField r systemFields"
  let ?r2 = "foldl dropPersonField ?r1 (keys ?r1)"
  have "set (keys (removeSystemFields r)) \<subseteq> set (keys ?r2)"
    unfolding removeSystemFields_def Let_def by (rule keys_foldl_dropTimestamp)
  also have "set (keys ?r2) = set (keys ?r1) - {k \<in> set (keys ?r1). endsWith k ''__pc''}"
    by (rule keys_foldl_dropPersonField)
  also have "set (keys ?r1) = set (keys r) - set systemFields"
    by (rule keys_foldl_dropSystemField)
  finally show ?thesis by auto
qed

text \<open>
  Claim C7. The record that sanitization produces has no key of the fixed list of system
  fields and no key that ends in \<open>__pc\<close>. Sanitization is a total function from
  records to records: it has no failure outcome, so it rejects no record.
\<close>

theorem removeSystemFields_excludes:
  "\<forall>k \<in> set (keys (removeSystemFields record)).
      k \<notin> set [''Id'', ''attributes'', ''CreatedDate'', ''CreatedById'', ''LastModifiedDate'',
        ''LastModifiedById'', ''SystemModstamp'', ''LastActivityDate'', ''LastViewedDate'',
        ''LastReferencedDate'', ''Owner'', ''IsDeleted'', ''MasterRecordId'',
        ''ConnectionReceivedId'', ''ConnectionSentId'', ''PhotoUrl'']
      \<and> \<not> endsWith k ''__pc''"
  using keys_removeSystemFields [of "record"] unfolding systemFields_def by blast

text \<open>An instance: a record with an \<open>Id\<close>, a person field and a login timestamp.\<close>

theorem removeSystemFields_excludes_witness:
  "keys (removeSystemFields [(''Id'', JStr ''001''), (''Name'', JStr ''Acme''), (''Age__pc'', JNum 3),
      (''LastLoginDate'', JStr ''2020''), (''CloseDate'', JStr ''2021'')]) = [''Name'', ''CloseDate'']
   \<and> ''Name'' \<notin> set systemFields \<and> \<not> endsWith ''Name'' ''__pc''"
  using removeSystemFields_excludes [of "[(''Id'', JStr ''001''), (''Name'', JStr ''Acme''), (''Age__pc'', JNum 3),
      (''LastLoginDate'', JStr ''2020''), (''CloseDate'', JStr ''2021'')]"]
  by code_simp

section \<open>Properties of error aggregation\<close>

lemma foldl_unique_set:
  "set (foldl (\<lambda>acc x. if x \<in> set acc then acc else acc @ [x]) acc xs) = set acc \<union> set xs"
  by (induction xs arbitrary: acc) auto

lemma foldl_unique_distinct:
  "distinct acc \<Longrightarrow> distinct (foldl (\<lambda>acc x. if x \<in> set acc then acc else acc @ [x]) acc xs)"
  by (induction xs arbitrary: acc) auto

lemma set_uniqueInOrder: "set (uniqueInOrder xs) = set xs"
  by (simp add: uniqueInOrder_def foldl_unique_set)

lemma distinct_uniqueInOrder: "distinct (uniqueInOrder xs)"
  by (simp add: uniqueInOrder_def foldl_unique_distinct)

lemma distinct_singleton: "distinct xs \<Longrightarrow> set xs = {m} \<Longrightarrow> xs = [m]"
proof (cases xs)
  case Nil
  assume "set xs = {m}"
  with Nil show ?thesis by simp
next
  case (Cons a as)
  assume d: "distinct xs" and s: "set xs = {m}"
  from s Cons have a: "a = m" by auto
  from s Cons have "set as \<subseteq> {m}" by auto
  with d Cons a have "as = []" by (cases as) auto
  with a Cons show ?thesis by simp
qed

lemma startsWith_iff: "startsWith s p \<longleftrightarrow> (\<exists>b. s = p @ b)"
proof
  assume "startsWith s p"
  then have "s = p @ drop (length p) s"
    by (metis startsWith_def append_take_drop_id)
  then show "\<exists>b. s = p @ b" ..
next
  assume "\<exists>b. s = p @ b"
  then show "startsWith s p" by (auto simp: startsWith_def)
qed

lemma str_includes_iff: "str_includes s p \<longleftrightarrow> (\<exists>a b. s = a @ p @ b)"
proof (induction s)
  case Nil
  show ?case by auto
next
  case (Cons c cs)
  show ?case
  proof
    assume "str_includes (c # cs) p"
    then consider "startsWith (c # cs) p" | "str_includes cs p" by auto
    then show "\<exists>a b. c # cs = a @ p @ b"
    proof cases
      case 1
      then obtain b where "c # cs = p @ b" by (auto simp: startsWith_iff)
      then have "c # cs = [] @ p @ b" by simp
      then show ?thesis by blast
    next
      case 2
      with Cons.IH obtain a b where "cs = a @ p @ b" by auto
      then have "c # cs = (c # a) @ p @ b" by simp
      then show ?thesis by blast
    qed
  next
    assume "\<exists>a b. c # cs = a @ p @ b"
    then obtain a b where ab: "c # cs = a @ p @ b" by auto
    show "str_includes (c # cs) p"
    proof (cases a)
      case Nil
      with ab have "startsWith (c # cs) p" by (auto simp: startsWith_iff)
      then show ?thesis by simp
    next
      case (Cons a0 as)
      with ab have "cs = as @ p @ b" by simp
      with Cons.IH have "str_includes cs p" by blast
      then show ?thesis by simp
    qed
  qed
qed

lemma join_contains: "x \<in> set xs \<Longrightarrow> \<exists>a b. join sep xs = a @ x @ b"
proof (induction sep xs rule: join.induct)
  case (1 sep)
  then show ?case by simp
next
  case (2 sep y)
  then have "join sep [y] = [] @ x @ []" by simp
  then show ?case by blast
next
  case (3 sep y z zs)
  show ?case
  proof (cases "x = y")
    case True
    then have "join sep (y # z # zs) = [] @ x @ (sep @ join sep (z # zs))" by simp
    then show ?thesis by blast
  next
    case False
    with 3 obtain a b where "join sep (z # zs) = a @ x @ b" by auto
    then have "join sep (y # z # zs) = (y @ sep @ a) @ x @ b" by simp
    then show ?thesis by blast
  qed
qed

lemma filter_all_same:
  "\<forall>e \<in> set es. f e = m \<Longrightarrow> m \<noteq> [] \<Longrightarrow> filter (\<lambda>s. s \<noteq> []) (map f es) = replicate (length es) m"
  by (induction es) auto

lemma stringifyErrors_same:
  assumes "2 \<le> length es" and "m \<noteq> []" and "\<forall>e \<in> set es. stringifyErrors e = m"
  shows "stringifyErrors (JArr es) = m @ '' (occurred '' @ string_of_nat (length es) @ '' times)''"
proof -
  let ?errors = "filter (\<lambda>s. s \<noteq> []) (map stringifyErrors es)"
  have e: "?errors = replicate (length es) m"
    using assms(3,2) by (rule filter_all_same)
  with assms(1) have "set ?errors = {m}" by auto
  then have "set (uniqueInOrder ?errors) = {m}" by (simp only: set_uniqueInOrder)
  with distinct_uniqueInOrder have u: "uniqueInOrder ?errors = [m]" by (rule distinct_singleton)
  have l: "length ?errors = length es" using e by simp
  show ?thesis
    unfolding stringifyErrors.simps Let_def u l using assms(1) by simp
qed

lemma stringifyErrors_keeps:
  assumes "e \<in> set es"
  shows "str_includes (stringifyErrors (JArr es)) (stringifyErrors e)"
proof (cases "stringifyErrors e = []")
  case True
  have "stringifyErrors (JArr es) = [] @ [] @ stringifyErrors (JArr es)" by simp
  then show ?thesis unfolding True str_includes_iff by blast
next
  case False
  let ?errors = "filter (\<lambda>s. s \<noteq> []) (map stringifyErrors es)"
  let ?u = "uniqueInOrder ?errors"
  from assms False have "stringifyErrors e \<in> set ?errors" by auto
  then have mem: "stringifyErrors e \<in> set ?u" by (simp only: set_uniqueInOrder)
  show ?thesis
  proof (cases "length ?u = 1 \<and> length ?errors > 1")
    case True
    then obtain x where x: "?u = [x]" by (cases ?u) auto
    with mem have "x = stringifyErrors e" by simp
    with x True have "stringifyErrors (JArr es) = [] @ stringifyErrors e @ ('' (occurred '' @ string_of_nat (length ?errors) @ '' times)'')"
      by (simp add: Let_def del: filter.simps)
    then show ?thesis unfolding str_includes_iff by blast
  next
    case False
    then have "stringifyErrors (JArr es) = join ''; '' ?u"
      by (auto simp add: Let_def simp del: filter.simps)
    with join_contains [OF mem, of "''; ''"] show ?thesis
      unfolding str_includes_iff by auto
  qed
qed

text \<open>
  Claim C8, as the code has it. An array of two or more payloads that all stringify to the
  same non-empty message \<open>m\<close> gives \<open>m\<close> followed by \<open>(occurred N times)\<close>, with
  \<open>N\<close> the length of the array. An array of one payload gives the message of that
  payload, with no suffix. In every case the message of every element occurs in the
  result, so no distinct message is dropped.
\<close>

theorem stringifyErrors_array:
  "(2 \<le> length es \<and> m \<noteq> [] \<and> (\<forall>e \<in> set es. stringifyErrors e = m)
      \<longrightarrow> stringifyErrors (JArr es) = m @ '' (occurred '' @ string_of_nat (length es) @ '' times)'')
   \<and> stringifyErrors (JArr [e1]) = stringifyErrors e1
   \<and> (\<forall>e \<in> set es. str_includes (stringifyErrors (JArr es)) (stringifyErrors e))"
proof (intro conjI impI ballI)
  assume "2 \<le> length es \<and> m \<noteq> [] \<and> (\<forall>e \<in> set es. stringifyErrors e = m)"
  then show "stringifyErrors (JArr es) = m @ '' (occurred '' @ string_of_nat (length es) @ '' times)''"
    using stringifyErrors_same by blast
next
  show "stringifyErrors (JArr [e1]) = stringifyErrors e1"
    by (simp add: Let_def uniqueInOrder_def)
next
  fix e assume "e \<in> set es"
  then show "str_includes (stringifyErrors (JArr es)) (stringifyErrors e)"
    by (rule stringifyErrors_keeps)
qed

text \<open>An instance: the same message in three shapes.\<close>

theorem stringifyErrors_array_witness:
  "stringifyErrors (JArr [JStr ''Required field missing'', JError ''Error'' ''Required field missing'',
       JObj [(''message'', JStr ''Required field missing'')]])
     = ''Required field missing (occurred 3 times)''
   \<and> str_includes (stringifyErrors (JArr [JStr ''Required field missing'', JError ''Error'' ''Required field missing'',
       JObj [(''message'', JStr ''Required field missing'')]])) ''Required field missing''"
  using stringifyErrors_array [of "[JStr ''Required field missing'', JError ''Error'' ''Required field missing'',
       JObj [(''message'', JStr ''Required field missing'')]]" "''Required field missing''" JNull]
  by code_simp

text \<open>
  Claim C8 as stated fails for an array of one element: the result is the message alone,
  not the message with \<open>(occurred 1 times)\<close>.
\<close>

theorem stringifyErrors_single_counterexample:
  "stringifyErrors (JArr [JStr ''Required field missing'']) = ''Required field missing''
   \<and> stringifyErrors (JArr [JStr ''Required field missing''])
       \<noteq> ''Required field missing'' @ '' (occurred '' @ string_of_nat (length [JStr ''Required field missing'']) @ '' times)''"
  by code_simp

section \<open>What relationship resolution changes\<close>

lemma resolves_refl: "resolves P s s"
  by (simp add: resolves_def)

lemma resolves_trans: "resolves P s s' \<Longrightarrow> resolves P s' s'' \<Longrightarrow> resolves P s s''"
  unfolding resolves_def
  by (elim conjE exE, intro conjI) (auto intro: prefix_order.trans)

lemma resolves_mono: "resolves P s s' \<Longrightarrow> (\<And>c. P c \<Longrightarrow> Q c) \<Longrightarrow> resolves Q s s'"
  unfolding resolves_def by blast

lemma resolves_pushError: "resolves P s (pushError e s)"
  by (simp add: resolves_def pushError_def)

lemma resolves_issue: "P (st, og, rq) \<Longrightarrow> resolves P s (issue st og rq s)"
  by (simp add: resolves_def issue_def)

lemma resolves_pushError_after: "resolves P s s' \<Longrightarrow> resolves P s (pushError e s')"
  by (erule resolves_trans) (rule resolves_pushError)

lemma resolves_query: "P (st, og, Query q) \<Longrightarrow> resolves P s (snd (query env st og q s))"
  by (simp add: query_def resolves_issue)

lemma resolves_describe: "P (st, og, Describe t) \<Longrightarrow> resolves P s (snd (describe env st og t s))"
  by (simp add: describe_def resolves_issue)

lemma resolves_create:
  "P (st, og, createRequest t rs) \<Longrightarrow> resolves P s (snd (create env st og t rs s))"
  by (simp add: create_def resolves_issue)

lemma resolves_fetchParents:
  "(\<And>q. P (st, Source, Query q)) \<Longrightarrow> resolves P s (snd (fetchParents env st soql chunks acc s))"
proof (induction chunks arbitrary: acc s)
  case Nil
  show ?case by (simp add: resolves_refl)
next
  case (Cons chunk chunks)
  obtain r s1 where q: "query env st Source (soql chunk) s = (r, s1)" by (cases "query env st Source (soql chunk) s")
  have s1: "resolves P s s1" using resolves_query [of P st Source "soql chunk" s env] Cons.prems q by simp
  show ?case
  proof (cases r)
    case (Inl e)
    with q s1 show ?thesis by simp
  next
    case (Inr resp)
    have "resolves P s1 (snd (fetchParents env st soql chunks (acc @ (case resp of None \<Rightarrow> [] | Some rs \<Rightarrow> rs)) s1))"
      using Cons.prems by (rule Cons.IH)
    with s1 have "resolves P s (snd (fetchParents env st soql chunks (acc @ (case resp of None \<Rightarrow> [] | Some rs \<Rightarrow> rs)) s1))"
      by (rule resolves_trans)
    with q Inr show ?thesis by simp
  qed
qed

lemma resolves_lookupParents:
  "resolves upsertCall (snd ms) (snd (lookupParents env parentObject externalIdField parentRecords ms))"
proof (induction parentRecords arbitrary: ms)
  case Nil
  show ?case by (simp add: resolves_refl)
next
  case (Cons parentRecord rest)
  show ?case
  proof (cases "truthy (getProp parentRecord externalIdField)")
    case False
    then show ?thesis using Cons.IH [of ms] by simp
  next
    case True
    let ?q = "targetQuery parentObject externalIdField (getProp parentRecord externalIdField)"
    obtain r s1 where q: "query env HandleUpsertModeParents Target ?q (snd ms) = (r, s1)"
      by (cases "query env HandleUpsertModeParents Target ?q (snd ms)")
    have "upsertCall (HandleUpsertModeParents, Target, Query ?q)" by (auto simp: upsertCall_def)
    then have "resolves upsertCall (snd ms) (snd (query env HandleUpsertModeParents Target ?q (snd ms)))"
      by (rule resolves_query)
    with q have s1: "resolves upsertCall (snd ms) s1" by simp
    have step: "resolves upsertCall (snd ms) (snd (lookupParents env parentObject externalIdField rest (m, s1)))" for m
      using s1 Cons.IH [of "(m, s1)"] by (auto intro: resolves_trans)
    have stepE: "resolves upsertCall (snd ms) (snd (lookupParents env parentObject externalIdField rest (m, pushError e s1)))" for m e
      using resolves_pushError_after [OF s1] Cons.IH [of "(m, pushError e s1)"] by (auto intro: resolves_trans)
    show ?thesis
    proof (cases r)
      case (Inl e)
      with True q stepE show ?thesis by simp
    next
      case (Inr resp)
      show ?thesis
      proof (cases resp)
        case None
        with Inr True q stepE show ?thesis by simp
      next
        case (Some rs)
        with Inr True q stepE step show ?thesis by (cases rs) simp_all
      qed
    qed
  qed
qed

lemma resolves_handleUpsertModeParents:
  "resolves upsertCall (snd ms) (snd (handleUpsertModeParents env parentObject parentIds options ms))"
proof (cases "externalIdMapping options")
  case None
  then show ?thesis by (simp add: handleUpsertModeParents_def resolves_refl)
next
  case (Some mapping)
  show ?thesis
  proof (cases "map_of mapping parentObject")
    case None
    with Some show ?thesis by (simp add: handleUpsertModeParents_def resolves_pushError)
  next
    case (Some externalIdField)
    note f = Some
    show ?thesis
    proof (cases "externalIdField = []")
      case True
      with f \<open>externalIdMapping options = Some mapping\<close> show ?thesis
        by (simp add: handleUpsertModeParents_def resolves_pushError)
    next
      case False
      let ?f = "fetchParents env HandleUpsertModeParents (upsertFetchQuery externalIdField parentObject)
                  (slices 1000 parentIds) [] (snd ms)"
      obtain r s1 where fp: "?f = (r, s1)" by (cases ?f)
      have "resolves upsertCall (snd ms) (snd ?f)"
        by (rule resolves_fetchParents) (auto simp: upsertCall_def)
      with fp have s1: "resolves upsertCall (snd ms) s1" by simp
      show ?thesis
      proof (cases r)
        case (Inl e)
        with False f \<open>externalIdMapping options = Some mapping\<close> fp s1 show ?thesis
          by (simp add: handleUpsertModeParents_def resolves_pushError_after)
      next
        case (Inr parentRecords)
        have "resolves upsertCall s1 (snd (lookupParents env parentObject externalIdField parentRecords (fst ms, s1)))"
          using resolves_lookupParents [of "(fst ms, s1)"] by simp
        with s1 have "resolves upsertCall (snd ms) (snd (lookupParents env parentObject externalIdField parentRecords (fst ms, s1)))"
          by (rule resolves_trans)
        with Inr False f \<open>externalIdMapping options = Some mapping\<close> fp show ?thesis
          by (simp add: handleUpsertModeParents_def)
      qed
    qed
  qed
qed

lemma resolves_mapInserted:
  "resolves P s (snd (snd (mapInserted parentObject rs originals (m, s))))"
proof (induction rs arbitrary: originals m s)
  case Nil
  show ?case by (simp add: resolves_refl)
next
  case (Cons r rs)
  show ?case
  proof (cases "truthy (r_success r) \<and> truthy (r_id r)")
    case True
    then show ?thesis using Cons.IH by (cases originals) (simp_all add: resolves_refl)
  next
    case False
    have "resolves P s (pushError (insertFailed parentObject (r_errors r)) s)"
      by (rule resolves_pushError)
    moreover have "resolves P (pushError (insertFailed parentObject (r_errors r)) s)
       (snd (snd (mapInserted parentObject rs (tl originals) (m, pushError (insertFailed parentObject (r_errors r)) s))))"
      by (rule Cons.IH)
    ultimately show ?thesis using False by (auto intro: resolves_trans)
  qed
qed

lemma resolves_insertCaught: "resolves P s s' \<Longrightarrow> resolves P s (insertCaught parentObject e s')"
  unfolding insertCaught_def by (rule resolves_pushError_after)

lemma resolves_handleInsertModeParents:
  "resolves insertCall (snd ms) (snd (handleInsertModeParents env parentObject parentIds ms))"
proof -
  let ?d = "describe env HandleInsertModeParents Source parentObject (snd ms)"
  obtain r1 s1 where d: "?d = (r1, s1)" by (cases ?d)
  have "resolves insertCall (snd ms) (snd ?d)"
    by (rule resolves_describe) (simp add: insertCall_def)
  with d have s1: "resolves insertCall (snd ms) s1" by simp
  show ?thesis
  proof (cases r1)
    case (Inl e)
    with d s1 show ?thesis by (simp add: handleInsertModeParents_def resolves_insertCaught)
  next
    case (Inr parentDescribe)
    note r1 = Inr
    show ?thesis
    proof (cases "insertableFields parentDescribe = []")
      case True
      with d r1 s1 show ?thesis by (simp add: handleInsertModeParents_def)
    next
      case False
      note nonempty = False
      let ?f = "fetchParents env HandleInsertModeParents (insertFetchQuery parentDescribe parentObject)
                    (slices 1000 parentIds) [] s1"
      obtain r2 s2 where f: "?f = (r2, s2)" by (cases ?f)
      have "resolves insertCall s1 (snd ?f)"
        by (rule resolves_fetchParents) (simp add: insertCall_def)
      with f s1 have s2: "resolves insertCall (snd ms) s2" by (auto intro: resolves_trans)
      show ?thesis
      proof (cases r2)
        case (Inl e)
        with d r1 nonempty f s2 show ?thesis
          by (simp add: handleInsertModeParents_def resolves_insertCaught)
      next
        case (Inr parentRecords)
        note r2 = Inr
        show ?thesis
        proof (cases "parentRecords = []")
          case True
          with d r1 nonempty f r2 s2 show ?thesis by (simp add: handleInsertModeParents_def)
        next
          case False
          let ?c = "create env HandleInsertModeParents Target parentObject
                           (map (cleanParent parentDescribe) parentRecords) s2"
          obtain r3 s3 where c: "?c = (r3, s3)" by (cases ?c)
          have "resolves insertCall s2 (snd ?c)"
            by (rule resolves_create) (simp add: insertCall_def)
          with c s2 have s3: "resolves insertCall (snd ms) s3" by (auto intro: resolves_trans)
          show ?thesis
          proof (cases r3)
            case (Inl e)
            with d r1 nonempty f r2 False c s3 show ?thesis
              by (simp add: handleInsertModeParents_def resolves_insertCaught)
          next
            case (Inr insertResult)
            note r3 = Inr
            show ?thesis
            proof (cases insertResult)
              case (ResultObject r)
              with d r1 nonempty f r2 False c r3 s3 show ?thesis
                by (simp add: handleInsertModeParents_def)
            next
              case (ResultArray rs)
              let ?m = "mapInserted parentObject rs parentRecords (fst ms, s3)"
              obtain r4 m4 s4 where m: "?m = (r4, m4, s4)" by (cases ?m)
              have "resolves insertCall s3 (snd (snd ?m))" by (rule resolves_mapInserted)
              with m s3 have s4: "resolves insertCall (snd ms) s4" by (auto intro: resolves_trans)
              with d r1 nonempty f r2 False c r3 ResultArray m show ?thesis
                by (cases r4) (simp_all add: handleInsertModeParents_def resolves_insertCaught)
            qed
          qed
        qed
      qed
    qed
  qed
qed

lemma resolves_handleParents:
  "resolves parentCall (snd ms) (snd (handleParents env options ms entry))"
proof -
  have i: "resolves parentCall (snd ms) (snd (handleInsertModeParents env (fst entry) (snd entry) ms))"
    using resolves_handleInsertModeParents by (rule resolves_mono) (simp add: insertCall_def parentCall_def)
  have u: "resolves parentCall (snd ms) (snd (handleUpsertModeParents env (fst entry) (snd entry) options ms))"
    using resolves_handleUpsertModeParents by (rule resolves_mono) (auto simp: upsertCall_def parentCall_def)
  show ?thesis using i u by (simp add: handleParents_def resolves_refl)
qed

lemma resolves_handleParents_upsert:
  "transferMode options \<noteq> Some Insert \<Longrightarrow>
   resolves upsertCall (snd ms) (snd (handleParents env options ms entry))"
  using resolves_handleUpsertModeParents [of ms env "fst entry" "snd entry" options]
  by (simp add: handleParents_def resolves_refl)

lemma resolves_foldl:
  assumes "\<And>ms e. resolves P (snd ms) (snd (f ms e))"
  shows "resolves P (snd ms) (snd (foldl f ms es))"
proof (induction es arbitrary: ms)
  case Nil
  show ?case by (simp add: resolves_refl)
next
  case (Cons e es)
  have "resolves P (snd ms) (snd (f ms e))" by (rule assms)
  moreover have "resolves P (snd (f ms e)) (snd (foldl f (f ms e) es))" by (rule Cons.IH)
  ultimately show ?case by (auto intro: resolves_trans)
qed

lemma resolves_ensureParentRecordsExistNew:
  "resolves parentCall s (snd (ensureParentRecordsExistNew env objectType md batch options s))"
proof (cases "referenceFields md = []")
  case True
  then show ?thesis by (simp add: ensureParentRecordsExistNew_def resolves_refl)
next
  case False
  have "resolves parentCall (snd ([]::jsobject, s)) (snd (foldl (handleParents env options) ([], s) (collectParentIds md batch)))"
    using resolves_foldl [where f = "handleParents env options" and P = parentCall, OF resolves_handleParents] .
  with False show ?thesis by (simp add: ensureParentRecordsExistNew_def)
qed

lemma resolves_ensureParentRecordsExistNew_upsert:
  assumes "transferMode options \<noteq> Some Insert"
  shows "resolves upsertCall s (snd (ensureParentRecordsExistNew env objectType md batch options s))"
proof (cases "referenceFields md = []")
  case True
  then show ?thesis by (simp add: ensureParentRecordsExistNew_def resolves_refl)
next
  case False
  have "resolves upsertCall (snd ([]::jsobject, s)) (snd (foldl (handleParents env options) ([], s) (collectParentIds md batch)))"
    using resolves_foldl [where f = "handleParents env options" and P = upsertCall,
        OF resolves_handleParents_upsert [OF assms]] .
  with False show ?thesis by (simp add: ensureParentRecordsExistNew_def)
qed

section \<open>Accounting for the batch loop\<close>

lemma slices_Nil: "slices n [] = []"
  by (subst slices.simps) simp

lemma slices_step: "0 < n \<Longrightarrow> xs \<noteq> [] \<Longrightarrow> slices n xs = take n xs # slices n (drop n xs)"
  by (subst slices.simps) simp

lemma ceil_shift:
  assumes "0 < n" and "0 < (m::nat)"
  shows "(m + n - 1) div n = Suc ((m - 1) div n)"
proof -
  have e: "m + n - 1 = (m - 1) + n" using assms by simp
  have "((m - 1) + n) div n = (m - 1) div n + 1"
    using assms by (intro div_add_self2) simp
  then show ?thesis by (simp only: e Suc_eq_plus1)
qed

lemma ceil_step:
  assumes "0 < n" and "0 < (m::nat)"
  shows "(m + n - 1) div n = Suc ((m - n + n - 1) div n)"
proof (cases "n \<le> m")
  case True
  have "(m + n - 1) div n = Suc ((m - 1) div n)" using assms by (rule ceil_shift)
  moreover have "m - n + n - 1 = m - 1" using True by simp
  ultimately show ?thesis by simp
next
  case False
  then have a: "m - n + n - 1 = n - 1" by simp
  have b: "(n - 1) div n = 0" using assms by simp
  have "(m + n - 1) div n = Suc ((m - 1) div n)" using assms by (rule ceil_shift)
  moreover have "(m - 1) div n = 0" using False assms by simp
  ultimately show ?thesis using a b by simp
qed

lemma length_slices: "0 < n \<Longrightarrow> length (slices n xs) = (length xs + n - 1) div n"
proof (induction "length xs" arbitrary: xs rule: less_induct)
  case less
  show ?case
  proof (cases "xs = []")
    case True
    with less.prems show ?thesis by (simp add: slices_Nil)
  next
    case False
    then have "length (drop n xs) < length xs" using less.prems by simp
    then have ih: "length (slices n (drop n xs)) = (length (drop n xs) + n - 1) div n"
      using less.hyps less.prems by blast
    have "length (slices n xs) = Suc (length (slices n (drop n xs)))"
      using False less.prems by (simp add: slices_step)
    also have "\<dots> = Suc ((length xs - n + n - 1) div n)" using ih by simp
    also have "\<dots> = (length xs + n - 1) div n"
      using ceil_step [of n "length xs"] less.prems False by simp
    finally show ?thesis .
  qed
qed

lemma ceil_floor_int:
  assumes "0 < (b::int)"
  shows "- (- n div b) = (n + b - 1) div b"
proof -
  let ?q = "(n + b - 1) div b" and ?r = "(n + b - 1) mod b"
  have r: "0 \<le> ?r" "?r < b" using assms by simp_all
  have "b * ?q + ?r = n + b - 1" by (rule mult_div_mod_eq)
  then have "- n = b * (- ?q) + (b - 1 - ?r)" by (simp add: algebra_simps)
  moreover have "0 \<le> b - 1 - ?r" "b - 1 - ?r < b" using r by simp_all
  ultimately have "- n div b = - ?q" by (rule int_div_pos_eq)
  then show ?thesis by simp
qed

lemma ceil_floor:
  assumes "0 < (b::int)"
  shows "int ((n + nat b - 1) div nat b) = - (- int n div b)"
proof -
  have "int (n + nat b - 1) = int n + b - 1" using assms by (simp add: of_nat_diff)
  then have "int ((n + nat b - 1) div nat b) = (int n + b - 1) div b"
    using assms by (simp only: zdiv_int) simp
  then show ?thesis using assms by (simp only: ceil_floor_int)
qed

lemma slice_step: "0 < b \<Longrightarrow> slice xs (int k) (int k + b) = take (nat b) (drop k xs)"
  by (auto simp: slice_def Let_def min_def)

lemma isCreate_createRequest: "isCreate (createRequest t rs)"
  by (simp add: createRequest_def)

lemma reported_append:
  "reported env st h (a @ b) = reported env st h a + reported env st (h @ a) b"
  by (induction a arbitrary: h) simp_all

lemma reported_none: "\<forall>c \<in> set cs. \<not> batchWrite st c \<Longrightarrow> reported env st h cs = 0"
  by (induction cs arbitrary: h) (simp_all add: reportedBy_def)

lemma recordResults_calls [simp]: "calls (recordResults t res s) = calls s"
  by (cases res) (simp_all add: recordResults_def pushError_def)

lemma recordResults_success [simp]: "success (recordResults t res s) = success s"
  by (cases res) (simp_all add: recordResults_def pushError_def)

lemma recordResults_count:
  "recordsTransferred (recordResults t res s) = recordsTransferred s + successesOf res"
  by (cases res) (simp_all add: recordResults_def pushError_def)

lemma recordResults_errors: "prefix (errors s) (errors (recordResults t res s))"
  by (cases res) (simp_all add: recordResults_def pushError_def)

text \<open>
  The batch loop and the batches it writes. With a positive batch size the loop from index
  \<open>k\<close> writes the slices of the records from \<open>k\<close> on, and returns. A loop that
  returns, with any batch size, has written a finite list of batches, and when it was
  entered and has ended without a thrown value its batch size is positive. With a negative
  batch size, a loop that is entered and in which nothing throws does not return.
\<close>

lemma writeBatches_Cons:
  "writeBatches env st objectType md options (batch # batches) s =
     (case create env st Target objectType (fst (payloadOf env objectType md options batch s))
             (snd (payloadOf env objectType md options batch s)) of
        (Inl e, s2) \<Rightarrow> (Inl e, s2)
      | (Inr insertResult, s2) \<Rightarrow>
          writeBatches env st objectType md options batches (recordResults objectType insertResult s2))"
  by (simp add: writeBatch_def split: prod.splits sum.splits)

lemma batchLoop_slices:
  assumes "0 < effectiveBatchSize options"
  shows "batchLoop env st objectType md options records (int k) s
           = Some (writeBatches env st objectType md options
                     (slices (nat (effectiveBatchSize options)) (drop k records)) s)"
proof (induction "length records - k" arbitrary: k s rule: less_induct)
  case less
  let ?b = "effectiveBatchSize options"
  show ?case
  proof (cases "k < length records")
    case False
    then have "drop k records = []" by simp
    with False show ?thesis by (subst batchLoop.simps) (simp add: slices_Nil)
  next
    case True
    let ?batch = "take (nat ?b) (drop k records)"
    let ?rest = "slices (nat ?b) (drop (k + nat ?b) records)"
    have sl: "slices (nat ?b) (drop k records) = ?batch # ?rest"
      using True assms by (simp add: slices_step add.commute)
    have idx: "int (k + nat ?b) = int k + ?b" using assms by simp
    have "length records - (k + nat ?b) < length records - k" using True assms by simp
    then have "batchLoop env st objectType md options records (int (k + nat ?b)) s'
        = Some (writeBatches env st objectType md options ?rest s')" for s'
      by (rule less.hyps)
    then have ih: "batchLoop env st objectType md options records (int k + ?b) s'
        = Some (writeBatches env st objectType md options ?rest s')" for s'
      by (simp only: idx)
    obtain r s1 where w: "writeBatch env st objectType md options ?batch s = (r, s1)"
      by (cases "writeBatch env st objectType md options ?batch s")
    have "batchLoop env st objectType md options records (int k) s
        = (case writeBatch env st objectType md options ?batch s of
             (Inl e, s') \<Rightarrow> Some (Inl e, s')
           | (Inr u, s') \<Rightarrow> batchLoop env st objectType md options records (int k + ?b) s')"
    proof -
      have "slice records (int k) (int k + ?b) = ?batch" using assms by (rule slice_step)
      moreover have "int k < int (length records)" using True by simp
      ultimately show ?thesis by (subst batchLoop.simps) (simp only: if_True)
    qed
    also have "\<dots> = Some (writeBatches env st objectType md options (?batch # ?rest) s)"
    proof (cases r)
      case (Inl e)
      with w show ?thesis by simp
    next
      case (Inr u)
      with w show ?thesis by (simp only: ih writeBatches.simps prod.case sum.case)
    qed
    finally show ?thesis by (simp only: sl)
  qed
qed

lemma batchLoop_returned:
  assumes "batchLoop env st objectType md options records i s = Some y"
  shows "(\<exists>batches. writeBatches env st objectType md options batches s = y)
         \<and> (fst y = Inr () \<and> i < int (length records) \<longrightarrow> 0 < effectiveBatchSize options)"
proof (rule batchLoop.raw_induct
    [where P = "\<lambda>env st objectType md options records i s y.
       (\<exists>batches. writeBatches env st objectType md options batches s = y)
       \<and> (fst y = Inr () \<and> i < int (length records) \<longrightarrow> 0 < effectiveBatchSize options)"])
  show "batchLoop env st objectType md options records i s = Some y" by (rule assms)
next
  fix loop env st objectType md options records i s y
  assume IH: "\<And>env st objectType md options records i s y.
      loop env st objectType md options records i s = Some y \<Longrightarrow>
      (\<exists>batches. writeBatches env st objectType md options batches s = y)
       \<and> (fst y = Inr () \<and> i < int (length records) \<longrightarrow> 0 < effectiveBatchSize options)"
    and body: "(if i < int (length records)
      then (case writeBatch env st objectType md options
                   (slice records i (i + effectiveBatchSize options)) s of
              (Inl e, s') \<Rightarrow> Some (Inl e, s')
            | (Inr u, s') \<Rightarrow>
                loop env st objectType md options records (i + effectiveBatchSize options) s')
      else Some (Inr (), s)) = Some y"
  show "(\<exists>batches. writeBatches env st objectType md options batches s = y)
       \<and> (fst y = Inr () \<and> i < int (length records) \<longrightarrow> 0 < effectiveBatchSize options)"
  proof (cases "i < int (length records)")
    case False
    with body have "y = (Inr (), s)" by simp
    then have "writeBatches env st objectType md options [] s = y" by simp
    with False show ?thesis by blast
  next
    case True
    let ?batch = "slice records i (i + effectiveBatchSize options)"
    obtain r1 s1 where w: "writeBatch env st objectType md options ?batch s = (r1, s1)"
      by (cases "writeBatch env st objectType md options ?batch s")
    show ?thesis
    proof (cases r1)
      case (Inl e)
      with True w body have y: "y = (Inl e, s1)" by simp
      with w Inl have "writeBatches env st objectType md options [?batch] s = y" by simp
      moreover have "fst y \<noteq> Inr ()" using y by simp
      ultimately show ?thesis by blast
    next
      case (Inr u)
      with True w body
      have "loop env st objectType md options records (i + effectiveBatchSize options) s1 = Some y"
        by simp
      then have "(\<exists>batches. writeBatches env st objectType md options batches s1 = y)
         \<and> (fst y = Inr () \<and> i + effectiveBatchSize options < int (length records)
               \<longrightarrow> 0 < effectiveBatchSize options)"
        by (rule IH)
      then obtain batches where
        b: "writeBatches env st objectType md options batches s1 = y"
        and p: "fst y = Inr () \<and> i + effectiveBatchSize options < int (length records) \<longrightarrow> 0 < effectiveBatchSize options"
        by blast
      from b w Inr have "writeBatches env st objectType md options (?batch # batches) s = y" by simp
      moreover have "0 < effectiveBatchSize options" if "fst y = Inr ()"
      proof (cases "i + effectiveBatchSize options < int (length records)")
        case True
        with p that show ?thesis by simp
      next
        case False
        with \<open>i < int (length records)\<close> show ?thesis by simp
      qed
      ultimately show ?thesis by blast
    qed
  qed
qed

lemma batchLoop_never_returns:
  assumes neg: "effectiveBatchSize options < 0" and less: "i < int (length records)"
      and accepted: "\<And>batch s. fst (writeBatch env st objectType md options batch s) = Inr ()"
  shows "batchLoop env st objectType md options records i s = None"
proof (cases "batchLoop env st objectType md options records i s")
  case None
  then show ?thesis .
next
  case (Some y)
  have "\<not> (effectiveBatchSize options < 0 \<and> i < int (length records)
      \<and> (\<forall>batch s. fst (writeBatch env st objectType md options batch s) = Inr ()))"
  proof (rule batchLoop.raw_induct
      [where P = "\<lambda>env st objectType md options records i s y.
         \<not> (effectiveBatchSize options < 0 \<and> i < int (length records)
            \<and> (\<forall>batch s. fst (writeBatch env st objectType md options batch s) = Inr ()))"])
    show "batchLoop env st objectType md options records i s = Some y" by (rule Some)
  next
    fix loop env st objectType md options records i s y
    assume IH: "\<And>env st objectType md options records i s y.
        loop env st objectType md options records i s = Some y \<Longrightarrow>
        \<not> (effectiveBatchSize options < 0 \<and> i < int (length records)
            \<and> (\<forall>batch s. fst (writeBatch env st objectType md options batch s) = Inr ()))"
      and body: "(if i < int (length records)
        then (case writeBatch env st objectType md options
                     (slice records i (i + effectiveBatchSize options)) s of
                (Inl e, s') \<Rightarrow> Some (Inl e, s')
              | (Inr u, s') \<Rightarrow>
                  loop env st objectType md options records (i + effectiveBatchSize options) s')
        else Some (Inr (), s)) = Some y"
    show "\<not> (effectiveBatchSize options < 0 \<and> i < int (length records)
            \<and> (\<forall>batch s. fst (writeBatch env st objectType md options batch s) = Inr ()))"
    proof
      assume a: "effectiveBatchSize options < 0 \<and> i < int (length records)
            \<and> (\<forall>batch s. fst (writeBatch env st objectType md options batch s) = Inr ())"
      let ?batch = "slice records i (i + effectiveBatchSize options)"
      have "fst (writeBatch env st objectType md options ?batch s) = Inr ()" using a by blast
      then obtain s1 where w: "writeBatch env st objectType md options ?batch s = (Inr (), s1)"
        by (cases "writeBatch env st objectType md options ?batch s") simp
      with a body have "loop env st objectType md options records (i + effectiveBatchSize options) s1 = Some y"
        by simp
      then have "\<not> (effectiveBatchSize options < 0 \<and> i + effectiveBatchSize options < int (length records)
            \<and> (\<forall>batch s. fst (writeBatch env st objectType md options batch s) = Inr ()))"
        by (rule IH)
      moreover have "i + effectiveBatchSize options < int (length records)" using a by simp
      ultimately show False using a by blast
    qed
  qed
  with neg less accepted show ?thesis by blast
qed

declare writeBatches.simps(2) [simp del]

lemma resolves_payloadOf:
  assumes "\<And>batch s. includeRelationships options \<Longrightarrow>
             resolves Q s (snd (ensureParentRecordsExistNew env objectType md batch options s))"
  shows "resolves Q s (snd (payloadOf env objectType md options batch s))"
proof (cases "includeRelationships options")
  case True
  with assms have "resolves Q s (snd (ensureParentRecordsExistNew env objectType md batch options s))"
    by blast
  with True show ?thesis
    by (cases "ensureParentRecordsExistNew env objectType md batch options s") (simp add: payloadOf_def)
next
  case False
  then show ?thesis by (simp add: payloadOf_def resolves_refl)
qed

lemma writeBatches_account:
  assumes Q: "\<And>batch s. includeRelationships options \<Longrightarrow>
             resolves Q s (snd (ensureParentRecordsExistNew env objectType md batch options s))"
      and QB: "\<And>c. Q c \<Longrightarrow> \<not> batchWrite st c"
      and run: "writeBatches env st objectType md options batches s = (r, s')"
  shows "\<exists>cs. calls s' = calls s @ cs \<and> (\<forall>c \<in> set cs. Q c \<or> batchWrite st c)
           \<and> success s' = success s \<and> prefix (errors s) (errors s')
           \<and> recordsTransferred s' = recordsTransferred s + reported env st (calls s) cs
           \<and> (r = Inr () \<longrightarrow> length (filter (batchWrite st) cs) = length batches)"
  using run
proof (induction batches arbitrary: s)
  case Nil
  then have "s' = s" "r = Inr ()" by simp_all
  then show ?case by simp
next
  case (Cons batch batches)
  let ?p = "payloadOf env objectType md options batch s"
  let ?rq = "createRequest objectType (fst ?p)"
  let ?w = "(st, Target, ?rq)"
  have "resolves Q s (snd ?p)" using Q by (rule resolves_payloadOf)
  then obtain c1 where c1: "calls (snd ?p) = calls s @ c1" "\<forall>c \<in> set c1. Q c"
    and p_success: "success (snd ?p) = success s"
    and p_count: "recordsTransferred (snd ?p) = recordsTransferred s"
    and p_errors: "prefix (errors s) (errors (snd ?p))"
    unfolding resolves_def by blast
  have w: "batchWrite st ?w" by (simp add: batchWrite_def targetCreate_def isCreate_createRequest)
  have none: "reported env st (calls s) c1 = 0"
    using c1(2) QB by (intro reported_none) blast
  let ?s2 = "issue st Target ?rq (snd ?p)"
  have cr: "create env st Target objectType (fst ?p) (snd ?p)
              = (createResponse env (calls (snd ?p)) Target ?rq, ?s2)"
    by (simp add: create_def)
  show ?case
  proof (cases "createResponse env (calls (snd ?p)) Target ?rq")
    case (Inl e)
    with Cons.prems cr have res: "r = Inl e" "s' = ?s2"
      by (simp_all add: writeBatches_Cons)
    have "calls s' = calls s @ (c1 @ [?w])" using res c1 by (simp add: issue_def)
    moreover have "\<forall>c \<in> set (c1 @ [?w]). Q c \<or> batchWrite st c" using c1 w by auto
    moreover have "success s' = success s" using res p_success by (simp add: issue_def)
    moreover have "prefix (errors s) (errors s')" using res p_errors by (simp add: issue_def)
    moreover have "reported env st (calls s) (c1 @ [?w]) = 0"
      using none Inl c1 w by (simp add: reported_append reportedBy_def)
    then have "recordsTransferred s' = recordsTransferred s + reported env st (calls s) (c1 @ [?w])"
      using res p_count by (simp add: issue_def)
    moreover have "r \<noteq> Inr ()" using res by simp
    ultimately show ?thesis by blast
  next
    case (Inr insertResult)
    let ?s3 = "recordResults objectType insertResult ?s2"
    from Inr Cons.prems cr have "writeBatches env st objectType md options batches ?s3 = (r, s')"
      by (simp add: writeBatches_Cons)
    from Cons.IH [OF this] obtain cs where cs: "calls s' = calls ?s3 @ cs"
      "\<forall>c \<in> set cs. Q c \<or> batchWrite st c" "success s' = success ?s3"
      "prefix (errors ?s3) (errors s')"
      "recordsTransferred s' = recordsTransferred ?s3 + reported env st (calls ?s3) cs"
      "r = Inr () \<longrightarrow> length (filter (batchWrite st) cs) = length batches"
      by blast
    have calls3: "calls ?s3 = calls s @ c1 @ [?w]" using c1 by (simp add: issue_def)
    have "calls s' = calls s @ (c1 @ [?w] @ cs)" using cs(1) calls3 by simp
    moreover have "\<forall>c \<in> set (c1 @ [?w] @ cs). Q c \<or> batchWrite st c" using c1 w cs(2) by auto
    moreover have "success s' = success s" using cs(3) p_success by (simp add: issue_def)
    moreover have "prefix (errors s) (errors s')"
    proof -
      have "prefix (errors (snd ?p)) (errors ?s3)"
        using recordResults_errors [of ?s2 objectType insertResult] by (simp add: issue_def)
      with p_errors cs(4) show ?thesis by (meson prefix_order.trans)
    qed
    moreover have "recordsTransferred s' = recordsTransferred s + reported env st (calls s) (c1 @ [?w] @ cs)"
    proof -
      have "reported env st (calls s) (c1 @ [?w] @ cs)
              = reportedBy env st (calls s @ c1) ?w + reported env st (calls s @ c1 @ [?w]) cs"
        using none by (simp add: reported_append)
      moreover have "reportedBy env st (calls s @ c1) ?w = successesOf insertResult"
        using Inr w c1 by (simp add: reportedBy_def)
      moreover have "recordsTransferred ?s3 = recordsTransferred s + successesOf insertResult"
        using p_count by (simp add: recordResults_count issue_def)
      ultimately show ?thesis using cs(5) calls3 by simp
    qed
    moreover have "r = Inr () \<longrightarrow> length (filter (batchWrite st) (c1 @ [?w] @ cs)) = length (batch # batches)"
    proof -
      have "filter (batchWrite st) c1 = []" using c1(2) QB by (auto simp: filter_empty_conv)
      with w cs(6) show ?thesis by simp
    qed
    ultimately show ?thesis by blast
  qed
qed




lemma try_describe_fails:
  assumes "describeResponse env (calls s) Source objectType = Inl e"
  shows "transferObjectRecords_try env objectType options s
           = Some (Inl e, issue TransferObjectRecords Source (Describe objectType) s)"
  using assms by (simp add: transferObjectRecords_try_def describe_def)

lemma calls_extracted:
  "calls (extracted objectType md options s)
     = calls s @ [describeCall objectType, extractionCall objectType md options]"
  by (simp add: extracted_def issue_def describeCall_def extractionCall_def)

lemma try_described:
  assumes "describeResponse env (calls s) Source objectType = Inr md"
  shows "transferObjectRecords_try env objectType options s =
     (case queryResponse env (calls s @ [describeCall objectType]) Source (extractionQuery objectType md options) of
        Inl e \<Rightarrow> Some (Inl e, extracted objectType md options s)
      | Inr None \<Rightarrow> Some (Inl (typeErrorReading ''length''), extracted objectType md options s)
      | Inr (Some records) \<Rightarrow>
          if records = [] then Some (Inr (), extracted objectType md options s)
          else batchLoop env TransferObjectRecords objectType md options records 0
                 (extracted objectType md options s))"
  using assms
  by (simp add: transferObjectRecords_try_def describe_def query_def extracted_def issue_def describeCall_def
           split: sum.splits option.splits)

lemma parentCall_not_batchWrite: "parentCall c \<Longrightarrow> \<not> batchWrite TransferObjectRecords c"
  by (auto simp: parentCall_def batchWrite_def)

lemma upsertCall_not_batchWrite: "upsertCall c \<Longrightarrow> \<not> batchWrite st c"
  by (auto simp: upsertCall_def batchWrite_def targetCreate_def)

lemma upsertCall_not_targetCreate: "upsertCall c \<Longrightarrow> \<not> targetCreate c"
  by (auto simp: upsertCall_def targetCreate_def)

lemma effectiveBatchSize_pos: "0 \<le> batchSize options \<Longrightarrow> 0 < effectiveBatchSize options"
  by (simp add: effectiveBatchSize_def)

lemma batchLoop_account:
  assumes Q: "\<And>batch s. includeRelationships options \<Longrightarrow>
             resolves Q s (snd (ensureParentRecordsExistNew env objectType md batch options s))"
      and QB: "\<And>c. Q c \<Longrightarrow> \<not> batchWrite st c"
      and run: "batchLoop env st objectType md options records 0 s = Some (r, s')"
  shows "\<exists>cs. calls s' = calls s @ cs \<and> (\<forall>c \<in> set cs. Q c \<or> batchWrite st c)
           \<and> success s' = success s \<and> prefix (errors s) (errors s')
           \<and> recordsTransferred s' = recordsTransferred s + reported env st (calls s) cs
           \<and> (r = Inr () \<longrightarrow> int (length (filter (batchWrite st) cs))
                 = - (- int (length records) div effectiveBatchSize options))"
proof -
  from batchLoop_returned [OF run] obtain batches where
    b: "writeBatches env st objectType md options batches s = (r, s')"
    and pos: "r = Inr () \<and> records \<noteq> [] \<longrightarrow> 0 < effectiveBatchSize options"
    by auto
  from writeBatches_account [OF Q QB b]
  obtain cs where cs: "calls s' = calls s @ cs" "\<forall>c \<in> set cs. Q c \<or> batchWrite st c"
    "success s' = success s" "prefix (errors s) (errors s')"
    "recordsTransferred s' = recordsTransferred s + reported env st (calls s) cs"
    by blast
  have "int (length (filter (batchWrite st) cs)) = - (- int (length records) div effectiveBatchSize options)"
    if ok: "r = Inr ()"
  proof (cases "records = []")
    case True
    with run have "s' = s" by (subst (asm) batchLoop.simps) simp
    with cs(1) True show ?thesis by simp
  next
    case False
    with pos ok have p: "0 < effectiveBatchSize options" by simp
    from run have "writeBatches env st objectType md options
        (slices (nat (effectiveBatchSize options)) records) s = (r, s')"
      using batchLoop_slices [OF p, of env st objectType md records 0 s] by simp
    from writeBatches_account [OF Q QB this] ok cs(1)
    have "length (filter (batchWrite st) cs) = length (slices (nat (effectiveBatchSize options)) records)"
      by auto
    moreover have "length (slices (nat (effectiveBatchSize options)) records)
        = (length records + nat (effectiveBatchSize options) - 1) div nat (effectiveBatchSize options)"
      using p by (intro length_slices) simp
    ultimately show ?thesis using ceil_floor [OF p, of "length records"] by (simp only:)
  qed
  with cs show ?thesis by blast
qed

lemma try_account:
  assumes d: "describeResponse env (calls s) Source objectType = Inr md"
      and q: "queryResponse env (calls s @ [describeCall objectType]) Source
                (extractionQuery objectType md options) = Inr (Some records)"
      and Q: "\<And>batch s. includeRelationships options \<Longrightarrow>
             resolves Q s (snd (ensureParentRecordsExistNew env objectType md batch options s))"
      and QB: "\<And>c. Q c \<Longrightarrow> \<not> batchWrite TransferObjectRecords c"
      and run: "transferObjectRecords_try env objectType options s = Some (r, s')"
  shows "\<exists>cs. calls s' = calls s @ [describeCall objectType, extractionCall objectType md options] @ cs
           \<and> (\<forall>c \<in> set cs. Q c \<or> batchWrite TransferObjectRecords c)
           \<and> success s' = success s \<and> prefix (errors s) (errors s')
           \<and> recordsTransferred s' = recordsTransferred s
                 + reported env TransferObjectRecords
                     (calls s @ [describeCall objectType, extractionCall objectType md options]) cs
           \<and> (r = Inr () \<longrightarrow> int (length (filter (batchWrite TransferObjectRecords) cs))
                 = - (- int (length records) div effectiveBatchSize options))"
proof (cases "records = []")
  case True
  with d q run have "s' = extracted objectType md options s" by (simp add: try_described)
  then show ?thesis using True
    by (simp add: calls_extracted) (simp add: extracted_def issue_def)
next
  case False
  let ?s2 = "extracted objectType md options s"
  from False d q run
  have "batchLoop env TransferObjectRecords objectType md options records 0 ?s2 = Some (r, s')"
    by (simp add: try_described)
  from batchLoop_account [OF Q QB this]
  obtain cs where cs: "calls s' = calls ?s2 @ cs"
    "\<forall>c \<in> set cs. Q c \<or> batchWrite TransferObjectRecords c"
    "success s' = success ?s2" "prefix (errors ?s2) (errors s')"
    "recordsTransferred s' = recordsTransferred ?s2 + reported env TransferObjectRecords (calls ?s2) cs"
    "r = Inr () \<longrightarrow> int (length (filter (batchWrite TransferObjectRecords) cs))
        = - (- int (length records) div effectiveBatchSize options)"
    by blast
  have same: "success ?s2 = success s" "errors ?s2 = errors s"
    "recordsTransferred ?s2 = recordsTransferred s"
    by (simp_all add: extracted_def issue_def)
  show ?thesis
    using cs same by (simp add: calls_extracted)
qed

lemma try_calls:
  assumes d: "describeResponse env (calls s) Source objectType = Inr md"
      and run: "transferObjectRecords_try env objectType options s = Some (r, s')"
  shows "\<exists>cs. calls s' = calls s @ [describeCall objectType, extractionCall objectType md options] @ cs
           \<and> (\<forall>c \<in> set cs. parentCall c \<or> batchWrite TransferObjectRecords c)
           \<and> success s' = success s \<and> prefix (errors s) (errors s')"
proof -
  let ?x = "extracted objectType md options s"
  have x: "calls ?x = calls s @ [describeCall objectType, extractionCall objectType md options] @ []"
    "success ?x = success s" "prefix (errors s) (errors ?x)"
    by (simp_all add: calls_extracted) (simp_all add: extracted_def issue_def)
  show ?thesis
  proof (cases "queryResponse env (calls s @ [describeCall objectType]) Source (extractionQuery objectType md options)")
    case (Inl e)
    with d run have "s' = ?x" by (simp add: try_described)
    with x show ?thesis by (metis empty_iff list.set(1))
  next
    case (Inr resp)
    show ?thesis
    proof (cases resp)
      case None
      with Inr d run have "s' = ?x" by (simp add: try_described)
      with x show ?thesis by (metis empty_iff list.set(1))
    next
      case (Some records)
      from try_account [OF d Inr [unfolded Some] resolves_ensureParentRecordsExistNew parentCall_not_batchWrite run]
      show ?thesis by blast
    qed
  qed
qed

lemma transferObjectRecords_calls:
  "transferObjectRecords_try env objectType options s = Some (r, s') \<Longrightarrow>
   \<exists>s''. transferObjectRecords env objectType options s = Some s''
     \<and> calls s'' = calls s' \<and> success s'' = success s'
     \<and> recordsTransferred s'' = recordsTransferred s' \<and> prefix (errors s') (errors s'')"
  by (cases r) (simp_all add: transferObjectRecords_def pushError_def)

lemma transferObjectRecords_tried:
  "transferObjectRecords env objectType options s = Some s'' \<Longrightarrow>
   \<exists>r s'. transferObjectRecords_try env objectType options s = Some (r, s')
     \<and> calls s'' = calls s' \<and> success s'' = success s'
     \<and> recordsTransferred s'' = recordsTransferred s' \<and> prefix (errors s') (errors s'')"
  by (auto simp: transferObjectRecords_def pushError_def split: option.splits sum.splits)

lemma transferObjectRecords_try_returns:
  assumes "0 \<le> batchSize options"
  shows "\<exists>y. transferObjectRecords_try env objectType options s = Some y"
proof -
  have "0 < effectiveBatchSize options" using assms by (rule effectiveBatchSize_pos)
  then have "\<exists>y. batchLoop env TransferObjectRecords objectType md options records 0 s2 = Some y"
    for md records s2
    using batchLoop_slices [of options env TransferObjectRecords objectType md records 0 s2] by simp
  then show ?thesis
    by (simp add: transferObjectRecords_try_def split: prod.splits sum.splits option.splits)
qed

lemma transferObjectRecords_returns:
  assumes "0 \<le> batchSize options"
  shows "\<exists>s'. transferObjectRecords env objectType options s = Some s'"
proof -
  from transferObjectRecords_try_returns [OF assms]
  obtain r s1 where "transferObjectRecords_try env objectType options s = Some (r, s1)" by fastforce
  from transferObjectRecords_calls [OF this] show ?thesis by blast
qed

section \<open>Batch writes\<close>

lemma newCalls_append: "calls s' = calls s @ cs \<Longrightarrow> newCalls s s' = cs"
  by (simp add: newCalls_def)

lemma batchWrite_targetCreate: "batchWrite st c \<Longrightarrow> targetCreate c"
  by (simp add: batchWrite_def)

lemma source_not_batchWrite: "\<not> batchWrite st (a, Source, rq)"
  by (simp add: batchWrite_def targetCreate_def)

text \<open>
  Claim C5, as the code has it. When the pipeline of an entity type ends without a thrown
  failure, the batch loop has issued exactly \<open>ceil(n / b)\<close> create calls for the
  \<open>n\<close> extracted records, with \<open>b\<close> the batch size (200 when the option is 0),
  which is then positive unless nothing was extracted, and \<open>recordsTransferred\<close> has
  grown by the number of records that the responses to these calls report as successful.
  When relationships are not included or the mode is not insert, these are all the create
  calls issued to the target; in insert mode with relationships the resolution of parents
  issues create calls of its own. The ceiling of \<open>n / b\<close> is \<open>- (- n div b)\<close>,
  the division of integers rounding down.
\<close>

theorem batch_write_calls:
  assumes d: "describeResponse env (calls s) Source objectType = Inr md"
      and q: "queryResponse env (calls s @ [(TransferObjectRecords, Source, Describe objectType)]) Source
                (extractionQuery objectType md options) = Inr (Some records)"
      and ok: "transferObjectRecords_try env objectType options s = Some (Inr (), s')"
  shows "transferObjectRecords env objectType options s = Some s'
         \<and> int (length (filter (batchWrite TransferObjectRecords) (newCalls s s')))
             = - (- int (length records) div effectiveBatchSize options)
         \<and> (records \<noteq> [] \<longrightarrow> 0 < effectiveBatchSize options)
         \<and> recordsTransferred s'
             = recordsTransferred s + reported env TransferObjectRecords (calls s) (newCalls s s')
         \<and> (\<not> includeRelationships options \<or> transferMode options \<noteq> Some Insert \<longrightarrow>
               filter targetCreate (newCalls s s')
                 = filter (batchWrite TransferObjectRecords) (newCalls s s'))"
proof -
  note run = ok
  have t: "transferObjectRecords env objectType options s = Some s'"
    using run by (simp add: transferObjectRecords_def)
  let ?d = "describeCall objectType" and ?q = "extractionCall objectType md options"
  from q have q': "queryResponse env (calls s @ [?d]) Source (extractionQuery objectType md options) = Inr (Some records)"
    by (simp add: describeCall_def)
  have dq: "\<not> batchWrite TransferObjectRecords ?d" "\<not> batchWrite TransferObjectRecords ?q"
    by (simp_all add: describeCall_def extractionCall_def source_not_batchWrite)
  have dq': "\<not> targetCreate ?d" "\<not> targetCreate ?q"
    by (simp_all add: describeCall_def extractionCall_def targetCreate_def)
  from try_account [OF d q' resolves_ensureParentRecordsExistNew parentCall_not_batchWrite run]
  obtain cs where cs: "calls s' = calls s @ [?d, ?q] @ cs"
    "recordsTransferred s' = recordsTransferred s
        + reported env TransferObjectRecords (calls s @ [?d, ?q]) cs"
    "int (length (filter (batchWrite TransferObjectRecords) cs))
        = - (- int (length records) div effectiveBatchSize options)"
    by blast
  have new: "newCalls s s' = [?d, ?q] @ cs" using cs(1) by (rule newCalls_append)
  have c1: "int (length (filter (batchWrite TransferObjectRecords) (newCalls s s')))
        = - (- int (length records) div effectiveBatchSize options)"
    using cs(3) dq by (simp add: new)
  have c0: "0 < effectiveBatchSize options" if "records \<noteq> []"
  proof -
    from that d q' run
    have "batchLoop env TransferObjectRecords objectType md options records 0
            (extracted objectType md options s) = Some (Inr (), s')"
      by (simp add: try_described)
    from batchLoop_returned [OF this] that show ?thesis by simp
  qed
  have "reported env TransferObjectRecords (calls s) ([?d, ?q] @ cs)
          = reported env TransferObjectRecords (calls s @ [?d, ?q]) cs"
    using dq by (simp add: reported_append reportedBy_def)
  then have c2: "recordsTransferred s' = recordsTransferred s
        + reported env TransferObjectRecords (calls s) (newCalls s s')"
    using cs(2) by (simp add: new)
  have c3: "filter targetCreate (newCalls s s') = filter (batchWrite TransferObjectRecords) (newCalls s s')"
    if nc: "\<not> includeRelationships options \<or> transferMode options \<noteq> Some Insert"
  proof -
    have Q: "\<And>batch s. includeRelationships options \<Longrightarrow>
             resolves upsertCall s (snd (ensureParentRecordsExistNew env objectType md batch options s))"
      using nc by (auto intro: resolves_ensureParentRecordsExistNew_upsert)
    from try_account [OF d q' Q upsertCall_not_batchWrite run]
    obtain cs' where cs': "calls s' = calls s @ [?d, ?q] @ cs'"
      "\<forall>c \<in> set cs'. upsertCall c \<or> batchWrite TransferObjectRecords c"
      by blast
    from cs'(1) cs(1) have "cs' = cs" by simp
    with cs'(2) have "\<forall>c \<in> set cs. targetCreate c = batchWrite TransferObjectRecords c"
      using upsertCall_not_targetCreate upsertCall_not_batchWrite batchWrite_targetCreate by blast
    then have "filter targetCreate cs = filter (batchWrite TransferObjectRecords) cs"
      by (intro filter_cong) simp_all
    then show ?thesis using dq dq' by (simp add: new)
  qed
  show ?thesis using t c0 c1 c2 c3 by blast
qed

text \<open>
  Scenario A: five source records, batch size 2, every write succeeds. Three create calls,
  five records transferred, no errors, success.
\<close>

theorem batch_write_calls_witness:
  "map_option (length \<circ> filter (batchWrite TransferObjectRecords) \<circ> newCalls (initialRun []))
       (transferObjectRecords allSucceed ''Contact'' contactsByTwo (initialRun [])) = Some 3
   \<and> map_option (length \<circ> filter targetCreate \<circ> newCalls (initialRun []))
       (transferObjectRecords allSucceed ''Contact'' contactsByTwo (initialRun [])) = Some 3
   \<and> map_option (reported allSucceed TransferObjectRecords [] \<circ> newCalls (initialRun []))
       (transferObjectRecords allSucceed ''Contact'' contactsByTwo (initialRun [])) = Some 5
   \<and> map_option (map_sum id (\<lambda>result. (success result, recordsTransferred result, errors result)))
       (transferData allSucceed connected contactsByTwo []) = Some (Inr (True, 5, []))"
proof -
  have d: "describeResponse allSucceed (calls (initialRun [])) Source ''Contact''
             = Inr contactSchema"
    by (simp add: allSucceed_def fixedRemote_def)
  have q: "queryResponse allSucceed (calls (initialRun []) @ [(TransferObjectRecords, Source, Describe ''Contact'')]) Source
             (extractionQuery ''Contact'' contactSchema contactsByTwo)
             = Inr (Some fiveContacts)"
    by (simp add: allSucceed_def fixedRemote_def)
  have "map_option fst (transferObjectRecords_try allSucceed ''Contact'' contactsByTwo (initialRun [])) = Some (Inr ())"
    by code_simp
  then obtain s' where ok: "transferObjectRecords_try allSucceed ''Contact'' contactsByTwo (initialRun []) = Some (Inr (), s')"
    by auto
  have five: "length fiveContacts = 5" by (simp add: fiveContacts_def)
  have two: "effectiveBatchSize contactsByTwo = 2" by (simp add: effectiveBatchSize_def contactsByTwo_def)
  have rel: "\<not> includeRelationships contactsByTwo" by (simp add: contactsByTwo_def)
  have run: "map_option (map_sum id (\<lambda>result. (success result, recordsTransferred result, errors result)))
       (transferData allSucceed connected contactsByTwo []) = Some (Inr (True, 5, []))"
    by code_simp
  have start: "recordsTransferred (initialRun []) = 0" "calls (initialRun []) = []"
    by (simp_all add: initialRun_def)
  have "map_option (recordsTransferred \<circ> snd) (transferObjectRecords_try allSucceed ''Contact'' contactsByTwo (initialRun [])) = Some 5"
    by code_simp
  with ok have rt: "recordsTransferred s' = 5" by simp
  have three: "- (- int 5 div 2) = int 3" by simp
  show ?thesis
    using batch_write_calls [OF d q ok] five two rel run start rt three by simp
qed

text \<open>
  Claim C5 as stated fails when a write call throws: the failure leaves the batch loop, and
  the remaining batches are not written. Two records with batch size 1 and a target that
  answers the first create with an HTTP error: one create call, not two.
\<close>

theorem batch_write_calls_counterexample:
  "describeResponse rejectingTarget [] Source ''Contact'' = Inr contactSchema
   \<and> queryResponse rejectingTarget [(TransferObjectRecords, Source, Describe ''Contact'')] Source
         (extractionQuery ''Contact'' contactSchema (contactsByTwo\<lparr>batchSize := 1\<rparr>)) = Inr (Some twoContacts)
   \<and> map_option (length \<circ> filter targetCreate \<circ> newCalls (initialRun []))
         (transferObjectRecords rejectingTarget ''Contact'' (contactsByTwo\<lparr>batchSize := 1\<rparr>) (initialRun []))
       = Some 1
   \<and> - (- int (length twoContacts) div effectiveBatchSize (contactsByTwo\<lparr>batchSize := 1\<rparr>)) = 2"
  by code_simp

section \<open>The extraction query\<close>




section \<open>Resolution in upsert mode writes nothing\<close>

text \<open>
  Claim C10. In upsert mode the resolution of the parents of a batch issues only queries,
  to the source and to the target: the calls before it are kept, every call it adds is a
  query, and the create calls to the target are the same after it as before it, whatever
  the orgs answer.
\<close>

theorem upsert_resolution_only_queries:
  assumes "transferMode options = Some Upsert"
  shows "calls (snd (ensureParentRecordsExistNew env objectType md batch options s))
           = calls s @ newCalls s (snd (ensureParentRecordsExistNew env objectType md batch options s))
         \<and> (\<forall>c \<in> set (newCalls s (snd (ensureParentRecordsExistNew env objectType md batch options s))).
               \<exists>og q. c = (HandleUpsertModeParents, og, Query q))
         \<and> filter targetCreate (calls (snd (ensureParentRecordsExistNew env objectType md batch options s)))
             = filter targetCreate (calls s)"
proof -
  let ?s' = "snd (ensureParentRecordsExistNew env objectType md batch options s)"
  have "transferMode options \<noteq> Some Insert" using assms by simp
  then have "resolves upsertCall s ?s'" by (rule resolves_ensureParentRecordsExistNew_upsert)
  then obtain cs where cs: "calls ?s' = calls s @ cs" "\<forall>c \<in> set cs. upsertCall c"
    unfolding resolves_def by blast
  have new: "newCalls s ?s' = cs" using cs(1) by (rule newCalls_append)
  have "filter targetCreate cs = []"
    using cs(2) upsertCall_not_targetCreate by (auto simp: filter_empty_conv)
  with cs new show ?thesis by (simp add: upsertCall_def)
qed

text \<open>
  An instance: two contacts with two parents, none of which the target knows. Three
  queries, no create call.
\<close>

theorem upsert_resolution_only_queries_witness:
  "newCalls (initialRun []) (snd (ensureParentRecordsExistNew unmatchedParents ''Contact'' contactSchema
       twoContacts upsertContacts (initialRun [])))
     = [(HandleUpsertModeParents, Source, Query (upsertFetchQuery ''Name'' ''Account'' [''001A'', ''001B''])),
        (HandleUpsertModeParents, Target, Query (targetQuery ''Account'' ''Name'' (JStr ''Acme''))),
        (HandleUpsertModeParents, Target, Query (targetQuery ''Account'' ''Name'' (JStr ''Bolt'')))]
   \<and> filter targetCreate (calls (snd (ensureParentRecordsExistNew unmatchedParents ''Contact'' contactSchema
         twoContacts upsertContacts (initialRun [])))) = []"
proof -
  have u: "transferMode upsertContacts = Some Upsert"
    by (simp add: upsertContacts_def)
  have n: "newCalls (initialRun []) (snd (ensureParentRecordsExistNew unmatchedParents ''Contact'' contactSchema
       twoContacts upsertContacts (initialRun [])))
     = [(HandleUpsertModeParents, Source, Query (upsertFetchQuery ''Name'' ''Account'' [''001A'', ''001B''])),
        (HandleUpsertModeParents, Target, Query (targetQuery ''Account'' ''Name'' (JStr ''Acme''))),
        (HandleUpsertModeParents, Target, Query (targetQuery ''Account'' ''Name'' (JStr ''Bolt'')))]"
    by code_simp
  have i: "filter targetCreate (calls (initialRun [])) = []" by (simp add: initialRun_def)
  have f: "filter targetCreate (calls (snd (ensureParentRecordsExistNew unmatchedParents ''Contact'' contactSchema
         twoContacts upsertContacts (initialRun [])))) = filter targetCreate (calls (initialRun []))"
    using upsert_resolution_only_queries [OF u, of unmatchedParents "''Contact''" contactSchema twoContacts "initialRun []"]
    by (elim conjE)
  show ?thesis by (simp only: n f i simp_thms)
qed

section \<open>Success of a run\<close>

lemma transferData_try_thrown:
  "transferData_try env options s = Some (Inl e, s') \<Longrightarrow> s' = s"
  by (auto simp: transferData_try_def transferByQuery_def split: if_splits option.splits sum.splits prod.splits)

text \<open>
  Claim C4. A run that completes returns a result whose \<open>success\<close> flag is true
  exactly when its list of errors is empty; the number of records transferred plays no
  part.
\<close>

theorem success_iff_no_errors:
  "transferData env service options history = Some (Inr result) \<Longrightarrow>
   success result \<longleftrightarrow> errors result = []"
proof -
  assume run: "transferData env service options history = Some (Inr result)"
  then obtain r s' where t: "transferData_try env (withDefaultMode options) (initialRun history) = Some (r, s')"
    by (cases "transferData_try env (withDefaultMode options) (initialRun history)")
       (auto simp: transferData_def split: if_splits)
  show ?thesis
  proof (cases r)
    case (Inl e)
    with t have "s' = initialRun history" by (auto dest: transferData_try_thrown)
    with run t Inl have "result = pushError (transferFailed e) (initialRun history)"
      by (auto simp: transferData_def split: if_splits)
    then show ?thesis by (simp add: pushError_def initialRun_def)
  next
    case (Inr u)
    with run t have "result = s'\<lparr>success := (errors s' = [])\<rparr>"
      by (auto simp: transferData_def split: if_splits)
    then show ?thesis by simp
  qed
qed

text \<open>
  An instance: both contacts are written, but their parents are not found in the target,
  so the run reports errors and is not a success although every requested record was
  transferred.
\<close>

theorem success_iff_no_errors_witness:
  "(case transferData unmatchedParents connected upsertContacts [] of
      Some (Inr result) \<Rightarrow> \<not> success result \<and> errors result \<noteq> [] \<and> recordsTransferred result = 2
    | _ \<Rightarrow> False)"
proof -
  have e: "(case transferData unmatchedParents connected upsertContacts [] of
      Some (Inr result) \<Rightarrow> errors result \<noteq> [] \<and> recordsTransferred result = 2
    | _ \<Rightarrow> False)"
    by code_simp
  then obtain result where r: "transferData unmatchedParents connected upsertContacts [] = Some (Inr result)"
    by (auto split: option.splits sum.splits)
  with e have "errors result \<noteq> []" "recordsTransferred result = 2" by simp_all
  with success_iff_no_errors [OF r] r show ?thesis by simp
qed

section \<open>A custom query without an entity type\<close>

text \<open>
  Claim C9. When a custom query is given from which no entity type can be extracted, the
  run returns with the failure recorded as the only error of the result, \<open>success\<close>
  false and \<open>recordsTransferred\<close> 0, and without having issued any call: the calls
  after the run are the calls before it, so no create call reached the target. The failure
  is the one thrown by \<open>transferByQuery\<close> for a query that is not blank; a blank query
  counts as no query, and with no entity types given either, the run fails likewise.
\<close>

theorem unparsable_query_writes_nothing:
  assumes "sourceConn service \<noteq> None" and "targetConn service \<noteq> None"
      and "customQuery options = Some soql" and "parseFromObject soql = None"
      and "trimmedNonEmpty soql \<or> objectTypes options = None"
  shows "transferData env service options history =
           Some (Inr \<lparr>success = False, recordsTransferred = 0,
                      errors = [transferFailed (if trimmedNonEmpty soql then noObjectType else noObjectTypes)],
                      calls = history\<rparr>)"
proof (cases "trimmedNonEmpty soql")
  case True
  with assms show ?thesis
    by (simp add: transferData_def transferData_try_def customQueryGiven_def withDefaultMode_def
          transferByQuery_def initialRun_def pushError_def)
next
  case False
  with assms show ?thesis
    by (simp add: transferData_def transferData_try_def customQueryGiven_def withDefaultMode_def
          initialRun_def pushError_def)
qed

text \<open>An instance: a query that ends after \<open>FROM\<close>.\<close>

theorem unparsable_query_writes_nothing_witness:
  "transferData allSucceed connected (contactsByTwo\<lparr>customQuery := Some ''SELECT Id, Name FROM''\<rparr>) []
     = Some (Inr \<lparr>success = False, recordsTransferred = 0,
                  errors = [''Transfer failed: Error: Unable to determine object type from SOQL query''],
                  calls = []\<rparr>)"
proof -
  have c: "sourceConn connected \<noteq> None" "targetConn connected \<noteq> None"
    by (simp_all add: connected_def)
  have q: "customQuery (contactsByTwo\<lparr>customQuery := Some ''SELECT Id, Name FROM''\<rparr>) = Some ''SELECT Id, Name FROM''"
    by simp
  have p: "parseFromObject ''SELECT Id, Name FROM'' = None" by code_simp
  have t: "trimmedNonEmpty ''SELECT Id, Name FROM''" by code_simp
  then have t': "trimmedNonEmpty ''SELECT Id, Name FROM'' \<or> objectTypes (contactsByTwo\<lparr>customQuery := Some ''SELECT Id, Name FROM''\<rparr>) = None"
    by simp
  have m: "transferFailed noObjectType = ''Transfer failed: Error: Unable to determine object type from SOQL query''"
    by code_simp
  show ?thesis
    using unparsable_query_writes_nothing [OF c q p t', of allSucceed "[]"] t m by simp
qed

section \<open>Failures inside a pipeline\<close>

lemma transferObjectRecords_step:
  assumes "transferObjectRecords env objectType options s = Some s''"
  shows "success s'' = success s \<and> prefix (errors s) (errors s'')
         \<and> (\<exists>cs. calls s'' = calls s @ describeCall objectType # cs)"
proof -
  from transferObjectRecords_tried [OF assms]
  obtain r s' where run: "transferObjectRecords_try env objectType options s = Some (r, s')"
    and same: "calls s'' = calls s'" "success s'' = success s'" "prefix (errors s') (errors s'')"
    by blast
  have tried: "success s' = success s \<and> prefix (errors s) (errors s')
      \<and> (\<exists>cs. calls s' = calls s @ describeCall objectType # cs)"
  proof (cases "describeResponse env (calls s) Source objectType")
    case (Inl e)
    with run have "s' = issue TransferObjectRecords Source (Describe objectType) s"
      by (simp add: try_describe_fails)
    then show ?thesis by (simp add: issue_def describeCall_def)
  next
    case (Inr md)
    from try_calls [OF Inr run] show ?thesis by auto
  qed
  with same show ?thesis
    by (auto intro: prefix_order.trans)
qed

lemma transferAll_append:
  "transferAll env options s (ts @ us) =
     (case transferAll env options s ts of
        None \<Rightarrow> None
      | Some s1 \<Rightarrow> transferAll env options s1 us)"
  by (induction ts arbitrary: s) (simp_all split: option.splits)

lemma transferAll_keeps:
  assumes "transferAll env options s ts = Some s'"
  shows "success s' = success s \<and> prefix (errors s) (errors s') \<and> prefix (calls s) (calls s')"
  using assms
proof (induction ts arbitrary: s)
  case Nil
  then show ?case by simp
next
  case (Cons t ts)
  from Cons.prems obtain s1 where s1: "transferObjectRecords env t options s = Some s1"
    and rest: "transferAll env options s1 ts = Some s'"
    by (auto split: option.splits)
  from transferObjectRecords_step [OF s1]
  have "success s1 = success s" "prefix (errors s) (errors s1)" "prefix (calls s) (calls s1)"
    by auto
  with Cons.IH [OF rest] show ?case
    by (auto intro: prefix_order.trans)
qed

lemma transferAll_returns:
  assumes "0 \<le> batchSize options"
  shows "\<exists>s'. transferAll env options s ts = Some s'"
proof (induction ts arbitrary: s)
  case Nil
  show ?case by simp
next
  case (Cons t ts)
  from transferObjectRecords_returns [OF assms]
  obtain s1 where "transferObjectRecords env t options s = Some s1" by blast
  with Cons.IH [of s1] show ?case by simp
qed

lemma prefix_newCalls:
  assumes "prefix (calls s0) (calls s)" and "calls s1 = calls s @ c # cs" and "prefix (calls s1) (calls s2)"
  shows "c \<in> set (newCalls s0 s2)"
proof -
  from assms(1) obtain a where a: "calls s = calls s0 @ a" by (auto simp: prefix_def)
  from assms(3) obtain b where b: "calls s2 = calls s1 @ b" by (auto simp: prefix_def)
  have "calls s2 = calls s0 @ (a @ c # cs @ b)" using a b assms(2) by simp
  then have "newCalls s0 s2 = a @ c # cs @ b" by (rule newCalls_append)
  then show ?thesis by simp
qed

lemma transferAll_attempts:
  assumes i: "i < length types" and all: "transferAll env options s types = Some result"
  shows "describeCall (types ! i) \<in> set (newCalls s result)
     \<and> (\<forall>before e s'. transferAll env options s (take i types) = Some before
            \<and> transferObjectRecords_try env (types ! i) options before = Some (Inl e, s')
            \<longrightarrow> transferCaught (types ! i) e \<in> set (errors result))"
proof -
  have split: "types = take i types @ types ! i # drop (Suc i) types"
    using i by (rule id_take_nth_drop)
  have "transferAll env options s (take i types @ types ! i # drop (Suc i) types) = Some result"
    using all split by simp
  then obtain before after where before: "transferAll env options s (take i types) = Some before"
    and after: "transferObjectRecords env (types ! i) options before = Some after"
    and rest: "transferAll env options after (drop (Suc i) types) = Some result"
    by (auto simp: transferAll_append split: option.splits)
  have b: "prefix (calls s) (calls before)" using transferAll_keeps [OF before] by blast
  from transferObjectRecords_step [OF after]
  obtain cs where cs: "calls after = calls before @ describeCall (types ! i) # cs" by blast
  have a: "prefix (calls after) (calls result)" "prefix (errors after) (errors result)"
    using transferAll_keeps [OF rest] by blast+
  have d: "describeCall (types ! i) \<in> set (newCalls s result)"
    using b cs a(1) by (rule prefix_newCalls)
  have c: "transferCaught (types ! i) e \<in> set (errors result)"
    if "transferAll env options s (take i types) = Some before'"
      and "transferObjectRecords_try env (types ! i) options before' = Some (Inl e, s')" for before' e s'
  proof -
    from that(1) before have "before' = before" by simp
    with that(2) after have "after = pushError (transferCaught (types ! i) e) s'"
      by (simp add: transferObjectRecords_def)
    then have "transferCaught (types ! i) e \<in> set (errors after)"
      by (simp add: pushError_def)
    with a(2) show ?thesis by (auto simp: prefix_def)
  qed
  from d c show ?thesis by blast
qed

lemma transferByQuery_try_returns:
  assumes "0 \<le> batchSize options"
  shows "\<exists>y. transferByQuery_try env soql objectType options s = Some y"
proof -
  have "0 < effectiveBatchSize options" using assms by (rule effectiveBatchSize_pos)
  then have "\<exists>y. batchLoop env TransferByQuery objectType md options records 0 s2 = Some y"
    for md records s2
    using batchLoop_slices [of options env TransferByQuery objectType md records 0 s2] by simp
  then show ?thesis
    by (simp add: transferByQuery_try_def split: prod.splits sum.splits option.splits)
qed

lemma transferData_try_returns:
  assumes "0 \<le> batchSize options"
  shows "\<exists>r s'. transferData_try env options s = Some (r, s')"
proof (cases "customQueryGiven options")
  case True
  let ?soql = "case customQuery options of None \<Rightarrow> [] | Some q \<Rightarrow> q"
  show ?thesis
  proof (cases "parseFromObject ?soql")
    case None
    with True show ?thesis by (simp add: transferData_try_def transferByQuery_def)
  next
    case (Some objectType)
    from transferByQuery_try_returns [OF assms]
    obtain r s' where "transferByQuery_try env ?soql objectType options s = Some (r, s')" by fastforce
    with True Some show ?thesis by (cases r) (simp_all add: transferData_try_def transferByQuery_def)
  qed
next
  case False
  show ?thesis
  proof (cases "objectTypes options")
    case None
    with False show ?thesis by (simp add: transferData_try_def)
  next
    case (Some types)
    from transferAll_returns [OF assms] obtain s' where "transferAll env options s types = Some s'"
      by blast
    with False Some show ?thesis by (simp add: transferData_try_def)
  qed
qed

text \<open>
  What holds for every batch size that is not negative. Without both connections
  \<open>transferData\<close> throws. With both connections it returns a result, whatever the
  orgs answer. Every requested entity type is attempted, also after failures of earlier
  ones: its describe call is among the calls of the run. When the pipeline of an entity
  type ends in a thrown failure, the message made of that failure is in the error list of
  the returned result; likewise for the pipeline of a custom query.
\<close>

lemma failures_are_recorded:
  assumes nonneg: "0 \<le> batchSize options"
  shows "(sourceConn service = None \<or> targetConn service = None \<longrightarrow>
      transferData env service options history = Some (Inl notInitialized))
   \<and> (sourceConn service \<noteq> None \<and> targetConn service \<noteq> None \<longrightarrow>
        (\<exists>result. transferData env service options history = Some (Inr result)
          \<and> (\<forall>types. \<not> customQueryGiven options \<and> objectTypes options = Some types \<longrightarrow>
               (\<forall>i < length types.
                   describeCall (types ! i) \<in> set (newCalls (initialRun history) result)
                 \<and> (\<forall>before e s'.
                        transferAll env (withDefaultMode options) (initialRun history) (take i types) = Some before
                      \<and> transferObjectRecords_try env (types ! i) (withDefaultMode options) before = Some (Inl e, s')
                      \<longrightarrow> transferCaught (types ! i) e \<in> set (errors result))))
          \<and> (\<forall>soql objectType e s'. customQueryGiven options \<and> customQuery options = Some soql
                 \<and> parseFromObject soql = Some objectType
                 \<and> transferByQuery_try env soql objectType (withDefaultMode options) (initialRun history)
                     = Some (Inl e, s')
               \<longrightarrow> queryCaught objectType e \<in> set (errors result))))"
proof (intro conjI impI)
  assume "sourceConn service = None \<or> targetConn service = None"
  then show "transferData env service options history = Some (Inl notInitialized)"
    by (simp add: transferData_def)
next
  assume conn: "sourceConn service \<noteq> None \<and> targetConn service \<noteq> None"
  let ?o = "withDefaultMode options" and ?s = "initialRun history"
  have "0 \<le> batchSize ?o" using nonneg by (simp add: withDefaultMode_def)
  from transferData_try_returns [OF this]
  obtain r s' where t: "transferData_try env ?o ?s = Some (r, s')" by blast
  let ?result = "case r of Inl error \<Rightarrow> pushError (transferFailed error) s' | Inr u \<Rightarrow> s'\<lparr>success := (errors s' = [])\<rparr>"
  have res: "transferData env service options history = Some (Inr ?result)"
    using conn t by (auto simp: transferData_def split: sum.splits)
  have same: "customQueryGiven ?o = customQueryGiven options" "objectTypes ?o = objectTypes options"
    "customQuery ?o = customQuery options"
    by (simp_all add: withDefaultMode_def customQueryGiven_def)
  have types: "describeCall (types ! i) \<in> set (newCalls ?s ?result)
      \<and> (\<forall>before e s'. transferAll env ?o ?s (take i types) = Some before
             \<and> transferObjectRecords_try env (types ! i) ?o before = Some (Inl e, s')
             \<longrightarrow> transferCaught (types ! i) e \<in> set (errors ?result))"
    if "\<not> customQueryGiven options \<and> objectTypes options = Some types" and "i < length types" for types i
  proof -
    from that(1) t same have r: "r = Inr ()" and all: "transferAll env ?o ?s types = Some s'"
      by (auto simp: transferData_try_def split: option.splits)
    from r have eq: "newCalls ?s ?result = newCalls ?s s'" "errors ?result = errors s'"
      by (simp_all add: newCalls_def)
    from transferAll_attempts [OF that(2) all] show ?thesis unfolding eq .
  qed
  have query: "queryCaught objectType e \<in> set (errors ?result)"
    if "customQueryGiven options \<and> customQuery options = Some soql
          \<and> parseFromObject soql = Some objectType
          \<and> transferByQuery_try env soql objectType ?o ?s = Some (Inl e, s1)" for soql objectType e s1
  proof -
    from that t same have "r = Inr ()" "s' = pushError (queryCaught objectType e) s1"
      by (auto simp: transferData_try_def transferByQuery_def)
    then show ?thesis by (simp add: pushError_def)
  qed
  from res types query
  show "\<exists>result. transferData env service options history = Some (Inr result)
          \<and> (\<forall>types. \<not> customQueryGiven options \<and> objectTypes options = Some types \<longrightarrow>
               (\<forall>i < length types.
                   describeCall (types ! i) \<in> set (newCalls (initialRun history) result)
                 \<and> (\<forall>before e s'.
                        transferAll env (withDefaultMode options) (initialRun history) (take i types) = Some before
                      \<and> transferObjectRecords_try env (types ! i) (withDefaultMode options) before = Some (Inl e, s')
                      \<longrightarrow> transferCaught (types ! i) e \<in> set (errors result))))
          \<and> (\<forall>soql objectType e s'. customQueryGiven options \<and> customQuery options = Some soql
                 \<and> parseFromObject soql = Some objectType
                 \<and> transferByQuery_try env soql objectType (withDefaultMode options) (initialRun history)
                     = Some (Inl e, s')
               \<longrightarrow> queryCaught objectType e \<in> set (errors result))"
    by blast
qed

text \<open>
  An instance: the first entity type cannot be described, the second is transferred in
  full.
\<close>

lemma failures_are_recorded_instance:
  "(case transferData missingType connected missingThenContacts [] of
      Some (Inr result) \<Rightarrow>
        ''Error transferring Missing__c: Salesforce API error: 404 Not Found - The requested resource does not exist''
          \<in> set (errors result)
        \<and> (TransferObjectRecords, Source, Describe ''Contact'') \<in> set (calls result)
        \<and> recordsTransferred result = 5
    | _ \<Rightarrow> False)"
  by code_simp

text \<open>
  With a negative batch size the index of the batch loop moves away from the number of
  records, and the loop is left only by a thrown value: while every create call is
  answered, it goes on, and what contains it does not return.
\<close>

lemma transferObjectRecords_never_returns:
  assumes d: "describeResponse env (calls s) Source objectType = Inr md"
      and q: "queryResponse env (calls s @ [describeCall objectType]) Source
                (extractionQuery objectType md options) = Inr (Some records)"
      and records: "records \<noteq> []"
      and neg: "batchSize options < 0"
      and accepted: "\<And>h rq. isCreate rq \<Longrightarrow> \<exists>res. createResponse env h Target rq = Inr res"
  shows "transferObjectRecords env objectType options s = None"
proof -
  have "fst (writeBatch env TransferObjectRecords objectType md options batch s1) = Inr ()" for batch s1
  proof -
    obtain payload s2 where p: "payloadOf env objectType md options batch s1 = (payload, s2)"
      by (cases "payloadOf env objectType md options batch s1")
    obtain res where "createResponse env (calls s2) Target (createRequest objectType payload) = Inr res"
      using accepted [OF isCreate_createRequest] by blast
    with p show ?thesis by (simp add: writeBatch_def create_def)
  qed
  moreover have "effectiveBatchSize options < 0" using neg by (simp add: effectiveBatchSize_def)
  moreover have "0 < int (length records)" using records by simp
  ultimately have "batchLoop env TransferObjectRecords objectType md options records 0
      (extracted objectType md options s) = None"
    by (intro batchLoop_never_returns)
  with d q records show ?thesis
    by (simp add: transferObjectRecords_def try_described)
qed

text \<open>The batches of five records with the batch size \<open>-1\<close>, at the indices 0, -1 and -2.\<close>

lemma contactsBackwards_batches:
  "slice fiveContacts 0 (0 + effectiveBatchSize contactsBackwards) = take 4 fiveContacts
   \<and> slice fiveContacts (- 1) (- 1 + effectiveBatchSize contactsBackwards) = []
   \<and> slice fiveContacts (- 2) (- 2 + effectiveBatchSize contactsBackwards) = []"
  by code_simp

text \<open>
  Claim C3 fails in the code for a negative batch size, which \<open>transferData\<close> accepts
  like any other number: the run does not complete. An instance: five contacts, the batch
  size \<open>-1\<close>, and a target that answers every create request with success. The first
  batch holds the first four contacts, every later batch is empty, and the run returns no
  result.
\<close>

theorem negative_batch_size_never_returns:
  "transferData allSucceed connected contactsBackwards [] = None"
proof -
  let ?s = "initialRun []"
  have d: "describeResponse allSucceed (calls ?s) Source ''Contact'' = Inr contactSchema"
    by (simp add: allSucceed_def fixedRemote_def)
  have q: "queryResponse allSucceed (calls ?s @ [describeCall ''Contact'']) Source
             (extractionQuery ''Contact'' contactSchema contactsBackwards) = Inr (Some fiveContacts)"
    by (simp add: allSucceed_def fixedRemote_def)
  have n: "fiveContacts \<noteq> []" by (simp add: fiveContacts_def)
  have b: "batchSize contactsBackwards < 0" by (simp add: contactsBackwards_def)
  have a: "\<exists>res. createResponse allSucceed h Target rq = Inr res" if "isCreate rq" for h rq
    using that by (cases rq) (simp_all add: allSucceed_def fixedRemote_def acceptAll_def)
  have o: "withDefaultMode contactsBackwards = contactsBackwards"
    "\<not> customQueryGiven contactsBackwards" "objectTypes contactsBackwards = Some [''Contact'']"
    "sourceConn connected \<noteq> None" "targetConn connected \<noteq> None"
    by (simp_all add: withDefaultMode_def contactsBackwards_def contactsByTwo_def customQueryGiven_def
          connected_def)
  have "transferObjectRecords allSucceed ''Contact'' contactsBackwards ?s = None"
    using d q n b a by (rule transferObjectRecords_never_returns)
  with o show ?thesis
    by (simp add: transferData_def transferData_try_def)
qed

section \<open>Reference fields of written records\<close>























section \<open>Upsert mode without an external-id field\<close>


















end
